theory Spec2Isabelle
  imports Complex_Main
begin

section \<open>Values of the program\<close>

text \<open>
  A Python \<open>str\<close> is a sequence of Unicode code points; \<open>len\<close> counts code points.
  The texts analysed are mostly Chinese, so a string is modelled as the list of its
  code points, not as a list of bytes.
\<close>

type_synonym pystr = "nat list"

text \<open>
  The numbers of \<open>analyze_text_features\<close> are float64 values. A finite float is
  modelled as the real it denotes; every operation of the program rounds its exact
  result to the nearest float64 (function \<open>fl\<close> below). The one non-finite value the
  function can produce is NaN: numpy's \<open>0.0 / 0.0\<close> and the statistics of an empty
  list give NaN with a warning, they do not raise. Every comparison with NaN is false.
\<close>

datatype npfloat = Fin real | NaN

datatype error = ZeroDivisionError | IndexError | OSError

section \<open>Rounding to float64\<close>

text \<open>
  The nearest integer, ties going to the even one: what \<open>rint\<close> computes, and how
  IEEE 754 rounds a significand.
\<close>

definition rint :: "real \<Rightarrow> int" where
  "rint x =
     (let f = \<lfloor>x\<rfloor>; d = x - of_int f
      in if d < 1 / 2 then f
         else if 1 / 2 < d then f + 1
         else if even f then f else f + 1)"

definition pow2 :: "int \<Rightarrow> real" where
  "pow2 e = 2 powr (of_int e)"

text \<open>The binary exponent of a non-zero real: \<open>2 ^ e \<le> |x| < 2 ^ (e + 1)\<close>.\<close>

definition expo :: "real \<Rightarrow> int" where
  "expo x = \<lfloor>log 2 \<bar>x\<bar>\<rfloor>"

text \<open>
  \<open>fl x\<close> is the float64 nearest to \<open>x\<close>, ties to even: the significand is scaled to
  53 bits, rounded to an integer and scaled back. The exponent is not bounded, so
  overflow to infinity and subnormal numbers are outside the model; the quantities
  of the program (ratios of counts, squares of differences of counts, weighted sums
  of them) are far from both.
\<close>

definition fl :: "real \<Rightarrow> real" where
  "fl x = (if x = 0 then 0
           else of_int (rint (x * pow2 (52 - expo x))) * pow2 (expo x - 52))"

section \<open>Arithmetic of the program\<close>

fun np_add :: "npfloat \<Rightarrow> npfloat \<Rightarrow> npfloat" where
  "np_add (Fin x) (Fin y) = Fin (fl (x + y))"
| "np_add _ _ = NaN"

fun np_sub :: "npfloat \<Rightarrow> npfloat \<Rightarrow> npfloat" where
  "np_sub (Fin x) (Fin y) = Fin (fl (x - y))"
| "np_sub _ _ = NaN"

fun np_mul :: "npfloat \<Rightarrow> npfloat \<Rightarrow> npfloat" where
  "np_mul (Fin x) (Fin y) = Fin (fl (x * y))"
| "np_mul _ _ = NaN"

text \<open>
  numpy's scalar division. \<open>0.0 / 0.0\<close> is NaN. A non-zero numerator over zero
  would be an infinity; the only division of the program is standard deviation by
  mean of a list of counts, where a zero mean forces a zero deviation
  (lemma \<open>np_mean_zero_std_zero\<close> below), so that case is mapped to NaN as well.
\<close>

fun np_div :: "npfloat \<Rightarrow> npfloat \<Rightarrow> npfloat" where
  "np_div (Fin x) (Fin y) = (if y = 0 then NaN else Fin (fl (x / y)))"
| "np_div _ _ = NaN"

fun np_less :: "npfloat \<Rightarrow> real \<Rightarrow> bool" where
  "np_less (Fin x) y = (x < y)"
| "np_less NaN y = False"

text \<open>
  Python's true division of two ints: raises on a zero divisor, and otherwise gives
  the float nearest to the quotient.
\<close>

definition py_truediv :: "nat \<Rightarrow> nat \<Rightarrow> error + real" where
  "py_truediv a b = (if b = 0 then Inl ZeroDivisionError else Inr (fl (real a / real b)))"

text \<open>
  \<open>round(x, ndigits)\<close> of a Python float: the decimal with \<open>ndigits\<close> places nearest
  to the exact value of \<open>x\<close> (ties to even), then the float nearest to that decimal.
\<close>

definition py_round :: "real \<Rightarrow> nat \<Rightarrow> real" where
  "py_round x ndigits = fl (of_int (rint (x * 10 ^ ndigits)) / 10 ^ ndigits)"

text \<open>
  \<open>round(x, ndigits)\<close> of a numpy float64 goes through \<open>numpy.round\<close>: multiply by
  the power of ten, \<open>rint\<close>, divide by the power of ten, each a float operation.
\<close>

fun np_round :: "npfloat \<Rightarrow> nat \<Rightarrow> npfloat" where
  "np_round (Fin x) ndigits = Fin (fl (of_int (rint (fl (x * 10 ^ ndigits))) / 10 ^ ndigits))"
| "np_round NaN ndigits = NaN"

text \<open>Multiplying a bool by a float: \<open>True\<close> counts as 1, \<open>False\<close> as 0.\<close>

definition bool_times :: "bool \<Rightarrow> real \<Rightarrow> real" where
  "bool_times b x = fl ((if b then 1 else 0) * x)"

section \<open>numpy statistics of a list of counts\<close>

text \<open>
  \<open>add.reduce\<close> over a float64 array starts from the identity 0 and adds the result
  of numpy's pairwise summation: fewer than 8 elements are added one after the other;
  up to 128 elements go through eight running sums, one per position modulo 8, which
  are combined as a balanced tree before the remaining elements are added; a longer
  array is halved, the first half a multiple of 8 long.
\<close>

definition fadd :: "real \<Rightarrow> real \<Rightarrow> real" where
  "fadd x y = fl (x + y)"

fun add_blocks :: "real list \<Rightarrow> real list \<Rightarrow> real list \<times> real list" where
  "add_blocks r a =
     (if length a < 8 then (r, a)
      else add_blocks (map2 fadd r (take 8 a)) (drop 8 a))"

declare add_blocks.simps [simp del]

definition unrolled_sum :: "real list \<Rightarrow> real" where
  "unrolled_sum a =
     (case add_blocks (take 8 a) (drop 8 a) of
        (r, rest) \<Rightarrow>
          foldl fadd
            (fadd (fadd (fadd (r ! 0) (r ! 1)) (fadd (r ! 2) (r ! 3)))
                  (fadd (fadd (r ! 4) (r ! 5)) (fadd (r ! 6) (r ! 7))))
            rest)"

function pairwise_sum :: "real list \<Rightarrow> real" where
  "pairwise_sum a =
     (if length a < 8 then foldl fadd 0 a
      else if length a \<le> 128 then unrolled_sum a
      else fadd (pairwise_sum (take (length a div 2 - length a div 2 mod 8) a))
                (pairwise_sum (drop (length a div 2 - length a div 2 mod 8) a)))"
  by pat_completeness auto

termination
  by (relation "measure length") auto

declare pairwise_sum.simps [simp del]

definition np_sum :: "real list \<Rightarrow> real" where
  "np_sum a = fadd 0 (pairwise_sum a)"

text \<open>
  \<open>np.mean\<close> of a list of ints: the sum as float64, divided by the length. The sum
  of the token counts of a text is an integer far below \<open>2 ^ 53\<close>, so every partial
  sum is a float and the summation is exact in any order.
\<close>

definition np_mean :: "nat list \<Rightarrow> npfloat" where
  "np_mean xs =
     (if xs = [] then NaN else Fin (fl (real (sum_list xs) / real (length xs))))"

text \<open>
  \<open>np.var\<close> with the default \<open>ddof = 0\<close>: the mean as above, the deviations from it,
  their squares, the float sum of the squares, divided by the length.
\<close>

definition np_var :: "nat list \<Rightarrow> npfloat" where
  "np_var xs =
     (if xs = [] then NaN
      else let arrmean = fl (real (sum_list xs) / real (length xs));
               x = map (\<lambda>v. fl (real v - arrmean)) xs;
               x2 = map (\<lambda>d. fl (d * d)) x
           in Fin (fl (np_sum x2 / real (length xs))))"

definition np_std :: "nat list \<Rightarrow> npfloat" where
  "np_std xs = (case np_var xs of Fin v \<Rightarrow> Fin (fl (sqrt v)) | NaN \<Rightarrow> NaN)"

section \<open>Counter and most_common\<close>

text \<open>
  \<open>Counter(words)\<close> is a dict from token to count, in order of first occurrence.
  \<open>most_common(1)\<close> is the empty list on an empty counter, and otherwise the one
  item that \<open>max\<close> with the count as key returns: the first among the items of
  greatest count.
\<close>

fun counter_incr :: "'a \<Rightarrow> ('a \<times> nat) list \<Rightarrow> ('a \<times> nat) list" where
  "counter_incr w [] = [(w, 1)]"
| "counter_incr w ((k, c) # kcs) =
     (if k = w then (k, Suc c) # kcs else (k, c) # counter_incr w kcs)"

definition Counter :: "'a list \<Rightarrow> ('a \<times> nat) list" where
  "Counter ws = foldl (\<lambda>d w. counter_incr w d) [] ws"

fun max_by_count :: "('a \<times> nat) \<Rightarrow> ('a \<times> nat) list \<Rightarrow> ('a \<times> nat)" where
  "max_by_count best [] = best"
| "max_by_count best (kc # kcs) =
     (if snd best < snd kc then max_by_count kc kcs else max_by_count best kcs)"

definition most_common1 :: "('a \<times> nat) list \<Rightarrow> ('a \<times> nat) list" where
  "most_common1 d = (case d of [] \<Rightarrow> [] | kc # kcs \<Rightarrow> [max_by_count kc kcs])"

section \<open>Strings\<close>

text \<open>The code points for which \<open>str.isspace\<close> holds; \<open>strip()\<close> removes them at both ends.\<close>

definition is_space :: "nat \<Rightarrow> bool" where
  "is_space c =
     ((9 \<le> c \<and> c \<le> 13) \<or> (28 \<le> c \<and> c \<le> 32) \<or> c = 133 \<or> c = 160 \<or> c = 5760
      \<or> (8192 \<le> c \<and> c \<le> 8202) \<or> c = 8232 \<or> c = 8233 \<or> c = 8239 \<or> c = 8287
      \<or> c = 12288)"

definition strip :: "pystr \<Rightarrow> pystr" where
  "strip s = rev (dropWhile is_space (rev (dropWhile is_space s)))"

definition endswith :: "pystr \<Rightarrow> pystr \<Rightarrow> bool" where
  "endswith s suf = (take (length suf) (rev s) = rev suf)"

fun startswith :: "pystr \<Rightarrow> pystr \<Rightarrow> bool" where
  "startswith s [] = True"
| "startswith [] (p # ps) = False"
| "startswith (c # cs) (p # ps) = (c = p \<and> startswith cs ps)"

text \<open>
  \<open>Series.str.contains(pat)\<close> for a pattern without regular-expression
  metacharacters: \<open>pat\<close> occurs somewhere in the string.
\<close>

fun str_contains :: "pystr \<Rightarrow> pystr \<Rightarrow> bool" where
  "str_contains [] pat = (pat = [])"
| "str_contains (c # cs) pat = (startswith (c # cs) pat \<or> str_contains cs pat)"

fun join :: "pystr \<Rightarrow> pystr list \<Rightarrow> pystr" where
  "join sep [] = []"
| "join sep [p] = p"
| "join sep (p # q # ps) = p @ sep @ join sep (q # ps)"

text \<open>The string literals of the program, as code points.\<close>

definition label_human :: pystr where
  "label_human = [0x4EBA, 0x985E, 0x64B0, 0x5BEB]"

definition label_ambiguous :: pystr where
  "label_ambiguous =
     [0x6A21, 0x7CCA, 0x5340, 0xFF08, 0x6DF7, 0x5408, 0x6216, 0x4FEE, 0x98FE, 0x904E, 0xFF09]"

definition label_ai :: pystr where
  "label_ai = [0x9AD8, 0x6A5F, 0x7387, 0x20, 0x41, 0x49, 0x20, 0x751F, 0x6210]"

definition pat_ambiguous :: pystr where
  "pat_ambiguous = [0x6A21, 0x7CCA]"

definition ext_txt :: pystr where
  "ext_txt = [0x2E, 0x74, 0x78, 0x74]"

definition ext_docx :: pystr where
  "ext_docx = [0x2E, 0x64, 0x6F, 0x63, 0x78]"

definition newline :: pystr where
  "newline = [0x0A]"

section \<open>The collaborators of the program\<close>

text \<open>
  What the program calls and does not define: the NLTK tokenizers, \<open>str.lower\<close>,
  textstat's reading ease, the directory walk, the path functions and the two file
  readers. They are parameters of the model. The tokenizers, \<open>lower\<close> and the
  reading ease are taken to return a value on every string; reading a file may fail.
\<close>

record env =
  sent_tokenize :: "pystr \<Rightarrow> pystr list"
  word_tokenize :: "pystr \<Rightarrow> pystr list"
  lower :: "pystr \<Rightarrow> pystr"
  flesch_reading_ease :: "pystr \<Rightarrow> real"
  os_walk :: "pystr \<Rightarrow> (pystr \<times> pystr list \<times> pystr list) list"
  os_path_join :: "pystr \<Rightarrow> pystr \<Rightarrow> pystr"
  os_path_basename :: "pystr \<Rightarrow> pystr"
  open_read :: "pystr \<Rightarrow> error + pystr"
  docx_paragraphs :: "pystr \<Rightarrow> error + pystr list"

section \<open>analyze_text_features\<close>

text \<open>The dict that \<open>analyze_text_features\<close> returns, one field per key, in the order of the source.\<close>

record analysis =
  text_length :: nat
  sentence_count :: nat
  lexical_diversity :: real
  sentence_length_variation :: npfloat
  readability :: real
  repetition_rate :: real
  perplexity_proxy :: npfloat
  ai_score :: npfloat
  result_label :: pystr

text \<open>
  Lines 56 to 61: the weighted sum, every product and sum rounded, added from left to
  right. The literals \<open>0.3\<close> and \<open>0.2\<close> are the floats nearest to them.
\<close>

definition score_of :: "real \<Rightarrow> npfloat \<Rightarrow> real \<Rightarrow> npfloat \<Rightarrow> npfloat" where
  "score_of ttr burstiness common_ratio pseudo_perplexity =
     np_add
       (np_add
          (np_add (Fin (fl (fl (1 - ttr) * fl 0.3)))
                  (np_mul (np_sub (Fin 1) burstiness) (Fin (fl 0.2))))
          (Fin (fl (common_ratio * fl 0.2))))
       (Fin (bool_times (np_less pseudo_perplexity 100) (fl 0.3)))"

text \<open>Lines 64 to 69: the label of a score.\<close>

definition label_of :: "npfloat \<Rightarrow> pystr" where
  "label_of ai =
     (if np_less ai 40 then label_human
      else if np_less ai 70 then label_ambiguous
      else label_ai)"

text \<open>Line 45: the share of distinct tokens, \<open>len(set(words)) / len(words)\<close>.\<close>

definition ttr_of :: "pystr list \<Rightarrow> error + real" where
  "ttr_of words = py_truediv (length (remdups words)) (length words)"

text \<open>Line 47: the number of word tokens of each sentence.\<close>

definition sent_lengths_of :: "env \<Rightarrow> pystr list \<Rightarrow> nat list" where
  "sent_lengths_of E sentences = map (\<lambda>s. length (word_tokenize E s)) sentences"

text \<open>Line 48: standard deviation over mean, with no test of the mean.\<close>

definition burstiness_of :: "nat list \<Rightarrow> npfloat" where
  "burstiness_of sent_lengths = np_div (np_std sent_lengths) (np_mean sent_lengths)"

text \<open>Line 52: \<open>Counter(words).most_common(1)[0][1] / len(words)\<close>.\<close>

definition common_ratio_of :: "pystr list \<Rightarrow> error + real" where
  "common_ratio_of words =
     (case most_common1 (Counter words) of
        [] \<Rightarrow> Inl IndexError
      | kc # _ \<Rightarrow> py_truediv (snd kc) (length words))"

definition analyze_text_features :: "env \<Rightarrow> pystr \<Rightarrow> error + analysis option" where
  "analyze_text_features E text =
     (if text = [] \<or> length (strip text) < 50 then Inr None
      else
        let sentences = sent_tokenize E text;
            words = word_tokenize E (lower E text)
        in if words = [] then Inr None
           else
             case ttr_of words of
               Inl e \<Rightarrow> Inl e
             | Inr ttr \<Rightarrow>
                 let sent_lengths = sent_lengths_of E sentences;
                     burstiness = burstiness_of sent_lengths;
                     readability = flesch_reading_ease E text
                 in case common_ratio_of words of
                      Inl e \<Rightarrow> Inl e
                    | Inr common_ratio \<Rightarrow>
                        let pseudo_perplexity = np_var sent_lengths;
                            score = score_of ttr burstiness common_ratio pseudo_perplexity;
                            ai = np_round (np_mul score (Fin 100)) 2
                        in Inr (Some
                             \<lparr> text_length = length text,
                               sentence_count = length sentences,
                               lexical_diversity = py_round ttr 3,
                               sentence_length_variation = np_round burstiness 3,
                               readability = py_round readability 2,
                               repetition_rate = py_round common_ratio 3,
                               perplexity_proxy = np_round pseudo_perplexity 2,
                               ai_score = ai,
                               result_label = label_of ai \<rparr>))"

section \<open>read_file_content and analyze_folder\<close>

definition read_file_content :: "env \<Rightarrow> pystr \<Rightarrow> error + pystr" where
  "read_file_content E filepath =
     (if endswith filepath ext_txt then open_read E filepath
      else if endswith filepath ext_docx then
        (case docx_paragraphs E filepath of
           Inl e \<Rightarrow> Inl e
         | Inr ps \<Rightarrow> Inr (join newline ps))
      else Inr [])"

text \<open>
  A row of the result table: the dict of \<open>analyze_text_features\<close> with the key for
  the file name added.
\<close>

record row = analysis +
  file_name :: pystr

definition add_file_name :: "analysis \<Rightarrow> pystr \<Rightarrow> row" where
  "add_file_name a n =
     \<lparr> text_length = text_length a, sentence_count = sentence_count a,
       lexical_diversity = lexical_diversity a,
       sentence_length_variation = sentence_length_variation a,
       readability = readability a, repetition_rate = repetition_rate a,
       perplexity_proxy = perplexity_proxy a, ai_score = ai_score a,
       result_label = result_label a, file_name = n \<rparr>"

text \<open>Lines 101 to 104: the walk, keeping the file names with one of the two suffixes.\<close>

definition discover :: "env \<Rightarrow> pystr \<Rightarrow> pystr list" where
  "discover E folder_path =
     concat (map (\<lambda>(root, dirs, filelist).
                    map (os_path_join E root)
                      (filter (\<lambda>f. endswith f ext_txt \<or> endswith f ext_docx) filelist))
                 (os_walk E folder_path))"

text \<open>
  Lines 110 to 115: the loop over the files, with \<open>results\<close> as accumulator. Nothing
  catches an exception of the reader, so the first failure ends the run.
\<close>

fun analyze_files :: "env \<Rightarrow> pystr list \<Rightarrow> row list \<Rightarrow> error + row list" where
  "analyze_files E [] results = Inr results"
| "analyze_files E (file # files) results =
     (case read_file_content E file of
        Inl e \<Rightarrow> Inl e
      | Inr text \<Rightarrow>
          (case analyze_text_features E text of
             Inl e \<Rightarrow> Inl e
           | Inr None \<Rightarrow> analyze_files E files results
           | Inr (Some a) \<Rightarrow>
               analyze_files E files (results @ [add_file_name a (os_path_basename E file)])))"

text \<open>
  The pandas reductions of a float column skip NaN (\<open>skipna\<close> is on by default) and
  give NaN when nothing is left.
\<close>

fun finite_values :: "npfloat list \<Rightarrow> real list" where
  "finite_values [] = []"
| "finite_values (Fin x # xs) = x # finite_values xs"
| "finite_values (NaN # xs) = finite_values xs"

text \<open>
  The mean puts 0 in the place of every NaN, sums the column with \<open>add.reduce\<close> and
  divides by the number of values that are not NaN.
\<close>

fun fill_zero :: "npfloat \<Rightarrow> real" where
  "fill_zero (Fin x) = x"
| "fill_zero NaN = 0"

definition series_mean :: "npfloat list \<Rightarrow> npfloat" where
  "series_mean xs =
     (if finite_values xs = [] then NaN
      else Fin (fl (np_sum (map fill_zero xs) / real (length (finite_values xs)))))"

definition series_max :: "npfloat list \<Rightarrow> npfloat" where
  "series_max xs = (case finite_values xs of [] \<Rightarrow> NaN | v # vs \<Rightarrow> Fin (fold max vs v))"

definition series_min :: "npfloat list \<Rightarrow> npfloat" where
  "series_min xs = (case finite_values xs of [] \<Rightarrow> NaN | v # vs \<Rightarrow> Fin (fold min vs v))"

text \<open>Lines 128 to 136: the summary dict.\<close>

record summary =
  total_documents :: nat
  mean_ai_score :: npfloat
  highest_score :: npfloat
  lowest_score :: npfloat
  high_ai_count :: nat
  ambiguous_count :: nat
  human_count :: nat

definition summarize :: "row list \<Rightarrow> summary" where
  "summarize df =
     \<lparr> total_documents = length df,
       mean_ai_score = np_round (series_mean (map ai_score df)) 2,
       highest_score = series_max (map ai_score df),
       lowest_score = series_min (map ai_score df),
       high_ai_count = length (filter (\<lambda>r. result_label r = label_ai) df),
       ambiguous_count = length (filter (\<lambda>r. str_contains (result_label r) pat_ambiguous) df),
       human_count = length (filter (\<lambda>r. result_label r = label_human) df) \<rparr>"

text \<open>
  What a run of \<open>analyze_folder\<close> shows or writes: the warning that no file was
  found, the notice that nothing could be analysed, or the table and its summary,
  which go to the spreadsheet and the chart. \<open>output_path\<close> is used by the
  rendering only and is not a parameter of the model.
\<close>

datatype outcome = NoFilesFound | NoAnalyzableContent | Report "row list" summary

definition analyze_folder :: "env \<Rightarrow> pystr \<Rightarrow> error + outcome" where
  "analyze_folder E folder_path =
     (let files = discover E folder_path
      in if files = [] then Inr NoFilesFound
         else
           case analyze_files E files [] of
             Inl e \<Rightarrow> Inl e
           | Inr results \<Rightarrow>
               if results = [] then Inr NoAnalyzableContent
               else Inr (Report results (summarize results)))"

section \<open>One file of the batch\<close>

text \<open>
  What one pass of the loop body adds to \<open>results\<close> when nothing raises: the row of
  the file, or nothing when \<open>analyze_text_features\<close> returns \<open>None\<close>.
\<close>

definition readable :: "env \<Rightarrow> pystr \<Rightarrow> bool" where
  "readable E file = (case read_file_content E file of Inl e \<Rightarrow> False | Inr text \<Rightarrow> True)"

definition row_of :: "env \<Rightarrow> pystr \<Rightarrow> row option" where
  "row_of E file =
     (case read_file_content E file of
        Inl e \<Rightarrow> None
      | Inr text \<Rightarrow>
          (case analyze_text_features E text of
             Inr (Some a) \<Rightarrow> Some (add_file_name a (os_path_basename E file))
           | _ \<Rightarrow> None))"

section \<open>A small environment for concrete runs\<close>

text \<open>
  Stand-ins for the collaborators, simple enough to evaluate: sentences end at a full
  stop, words are separated by white space or a full stop, \<open>lower\<close> maps the ASCII
  capitals, and the file system holds three folders.
\<close>

fun split_acc :: "(nat \<Rightarrow> bool) \<Rightarrow> pystr \<Rightarrow> pystr \<Rightarrow> pystr list" where
  "split_acc sep cur [] = (if cur = [] then [] else [cur])"
| "split_acc sep cur (c # cs) =
     (if sep c then (if cur = [] then split_acc sep [] cs else cur # split_acc sep [] cs)
      else split_acc sep (cur @ [c]) cs)"

definition demo_words :: "pystr \<Rightarrow> pystr list" where
  "demo_words s = split_acc (\<lambda>c. is_space c \<or> c = 46) [] s"

definition demo_sentences :: "pystr \<Rightarrow> pystr list" where
  "demo_sentences s = split_acc (\<lambda>c. c = 46) [] s"

definition demo_lower :: "pystr \<Rightarrow> pystr" where
  "demo_lower s = map (\<lambda>c. if 65 \<le> c \<and> c \<le> 90 then c + 32 else c) s"

text \<open>Six times the sentence \<open>ab cd ef.\<close>\<close>

definition text_ai :: pystr where
  "text_ai =
       [97, 98, 32, 99, 100, 32, 101, 102, 46, 32, 97, 98, 32, 99, 100, 32, 101, 102, 46,
        32, 97, 98, 32, 99, 100, 32, 101, 102, 46, 32, 97, 98, 32, 99, 100, 32, 101, 102,
        46, 32, 97, 98, 32, 99, 100, 32, 101, 102, 46, 32, 97, 98, 32, 99, 100, 32, 101,
        102, 46]"

text \<open>Four sentences of one word and one of twenty-six, all thirty words distinct.\<close>

definition text_varied :: pystr where
  "text_varied =
       [97, 46, 32, 98, 46, 32, 99, 46, 32, 100, 46, 32, 101, 32, 102, 32, 103, 32, 104,
        32, 105, 32, 106, 32, 107, 32, 108, 32, 109, 32, 110, 32, 111, 32, 112, 32, 113,
        32, 114, 32, 115, 32, 116, 32, 117, 32, 118, 32, 119, 32, 120, 32, 121, 32, 122,
        32, 48, 32, 49, 32, 50, 32, 51, 46]"

text \<open>The ten characters \<open>too short.\<close>\<close>

definition text_short :: pystr where
  "text_short = [116, 111, 111, 32, 115, 104, 111, 114, 116, 46]"

text \<open>Two paragraphs of a document: four sentences of one word, then one of six.\<close>

definition para_one :: pystr where
  "para_one =
       [97, 108, 112, 104, 97, 46, 32, 98, 114, 97, 118, 111, 46, 32, 100, 101, 108, 116,
        97, 46, 32, 103, 97, 109, 109, 97, 46]"

definition para_two :: pystr where
  "para_two =
       [115, 105, 103, 109, 97, 32, 107, 97, 112, 112, 97, 32, 111, 109, 101, 103, 97, 32,
        116, 104, 101, 116, 97, 32, 108, 97, 109, 98, 100, 97, 32, 122, 101, 116, 97, 46]"

text \<open>
  The folder and file names \<open>docs\<close>, \<open>drafts\<close>, \<open>plain\<close>, \<open>broken\<close>, \<open>a.txt\<close>, \<open>b.txt\<close>,
  \<open>c.docx\<close>, \<open>notes.md\<close>.
\<close>

definition dir_docs :: pystr where
  "dir_docs = [100, 111, 99, 115]"

definition dir_drafts :: pystr where
  "dir_drafts = [100, 114, 97, 102, 116, 115]"

definition dir_plain :: pystr where
  "dir_plain = [112, 108, 97, 105, 110]"

definition name_a :: pystr where
  "name_a = [97, 46, 116, 120, 116]"

definition name_b :: pystr where
  "name_b = [98, 46, 116, 120, 116]"

definition name_c :: pystr where
  "name_c = [99, 46, 100, 111, 99, 120]"

definition dir_broken :: pystr where
  "dir_broken = [98, 114, 111, 107, 101, 110]"

definition name_notes :: pystr where
  "name_notes = [110, 111, 116, 101, 115, 46, 109, 100]"

definition demo_join :: "pystr \<Rightarrow> pystr \<Rightarrow> pystr" where
  "demo_join folder f = folder @ [47] @ f"

definition demo_basename :: "pystr \<Rightarrow> pystr" where
  "demo_basename p = rev (takeWhile (\<lambda>c. c \<noteq> 47) (rev p))"

text \<open>
  \<open>docs\<close> holds \<open>a.txt\<close> (the repeated sentence), \<open>b.txt\<close> (empty), \<open>c.docx\<close>
  (the two paragraphs) and \<open>notes.md\<close>; \<open>drafts\<close> holds a \<open>b.txt\<close> with the short
  text; \<open>plain\<close> holds only \<open>notes.md\<close>; \<open>broken\<close> holds a \<open>c.docx\<close> that is not a
  document, so that opening it fails.
\<close>

definition demo_walk :: "pystr \<Rightarrow> (pystr \<times> pystr list \<times> pystr list) list" where
  "demo_walk p =
     (if p = dir_docs then [(dir_docs, [], [name_a, name_b, name_c, name_notes])]
      else if p = dir_drafts then [(dir_drafts, [], [name_b])]
      else if p = dir_plain then [(dir_plain, [], [name_notes])]
      else if p = dir_broken then [(dir_broken, [], [name_c])]
      else [])"

definition demo_open :: "pystr \<Rightarrow> error + pystr" where
  "demo_open p =
     (if p = demo_join dir_docs name_a then Inr text_ai
      else if p = demo_join dir_docs name_b then Inr []
      else if p = demo_join dir_drafts name_b then Inr text_short
      else Inl OSError)"

definition demo_docx :: "pystr \<Rightarrow> error + pystr list" where
  "demo_docx p =
     (if p = demo_join dir_docs name_c then Inr [para_one, para_two] else Inl OSError)"

definition demo_env :: env where
  "demo_env =
     \<lparr> sent_tokenize = demo_sentences, word_tokenize = demo_words, lower = demo_lower,
       flesch_reading_ease = (\<lambda>s. 0), os_walk = demo_walk, os_path_join = demo_join,
       os_path_basename = demo_basename, open_read = demo_open,
       docx_paragraphs = demo_docx \<rparr>"

text \<open>What \<open>analyze_text_features\<close> returns on the repeated-sentence document.\<close>

definition analysis_ai :: analysis where
  "analysis_ai = \<lparr> text_length = 59, sentence_count = 6, lexical_diversity = fl 0.167,
        sentence_length_variation = Fin 0, readability = 0, repetition_rate = fl 0.333,
        perplexity_proxy = Fin 0, ai_score = Fin (fl 81.67), result_label = label_ai \<rparr>"

text \<open>What \<open>analyze_text_features\<close> returns on the varied document.\<close>

definition analysis_varied :: analysis where
  "analysis_varied =
     \<lparr> text_length = 64, sentence_count = 5, lexical_diversity = 1,
       sentence_length_variation = Fin (fl 1.667), readability = 0, repetition_rate = fl 0.033,
       perplexity_proxy = Fin 100, ai_score = Fin (- fl 12.67), result_label = label_human \<rparr>"

text \<open>What \<open>analyze_text_features\<close> returns on the two paragraphs joined by a newline.\<close>

definition analysis_doc :: analysis where
  "analysis_doc =
     \<lparr> text_length = 64, sentence_count = 5, lexical_diversity = 1,
       sentence_length_variation = Fin 1, readability = 0, repetition_rate = fl 0.1,
       perplexity_proxy = Fin 4, ai_score = Fin 32, result_label = label_human \<rparr>"

text \<open>The content of \<open>c.docx\<close> as \<open>read_file_content\<close> returns it.\<close>

definition text_doc :: pystr where
  "text_doc = join newline [para_one, para_two]"




section \<open>The formulas of the specification\<close>



section \<open>Rounding to the nearest integer\<close>

lemma rint_of_int: "rint (of_int n) = n"
  by (simp add: rint_def)

lemma rint_bounds: "\<lfloor>x\<rfloor> \<le> rint x" "rint x \<le> \<lfloor>x\<rfloor> + 1"
  by (simp_all add: rint_def Let_def)

lemma rint_close: "\<bar>of_int (rint x) - x\<bar> \<le> 1 / 2"
proof -
  have "of_int \<lfloor>x\<rfloor> \<le> x" "x < of_int \<lfloor>x\<rfloor> + 1" by linarith+
  then show ?thesis
    by (auto simp: rint_def Let_def abs_le_iff)
qed

lemma rint_unique:
  assumes "\<bar>x - of_int n\<bar> < 1 / 2"
  shows "rint x = n"
proof -
  have c: "\<bar>of_int (rint x) - x\<bar> \<le> 1 / 2" by (rule rint_close)
  have "\<bar>real_of_int (rint x) - of_int n\<bar> < 1" using assms c by linarith
  then have "\<bar>real_of_int (rint x - n)\<bar> < 1" by simp
  then have "\<bar>rint x - n\<bar> < 1" by linarith
  then show ?thesis by linarith
qed

lemma rint_mono:
  assumes "x \<le> y"
  shows "rint x \<le> rint y"
proof (cases "\<lfloor>x\<rfloor> = \<lfloor>y\<rfloor>")
  case True
  then show ?thesis using assms by (auto simp: rint_def Let_def)
next
  case False
  then have "\<lfloor>x\<rfloor> < \<lfloor>y\<rfloor>" using assms floor_mono [of x y] by linarith
  then show ?thesis using rint_bounds(2) [of x] rint_bounds(1) [of y] by linarith
qed

lemma rint_le: "x \<le> of_int n \<Longrightarrow> rint x \<le> n"
  using rint_mono [of x "of_int n"] by (simp add: rint_of_int)

lemma rint_ge: "of_int n \<le> x \<Longrightarrow> n \<le> rint x"
  using rint_mono [of "of_int n" x] by (simp add: rint_of_int)

lemma rint_minus: "rint (- x) = - rint x"
proof (cases "x = of_int \<lfloor>x\<rfloor>")
  case True
  then obtain n where "x = of_int n" by blast
  then show ?thesis by (simp add: rint_of_int flip: of_int_minus)
next
  case False
  then have f: "\<lfloor>- x\<rfloor> = - \<lfloor>x\<rfloor> - 1"
    by (metis ceiling_altdef ceiling_def add_diff_cancel_right' minus_diff_eq diff_minus_eq_add
        uminus_add_conv_diff)
  have "of_int \<lfloor>x\<rfloor> < x" using False by linarith
  then show ?thesis
    unfolding rint_def Let_def f by auto
qed

section \<open>Rounding to float64: basic facts\<close>

lemma pow2_pos: "0 < pow2 e"
  by (simp add: pow2_def)

lemma pow2_add: "pow2 (a + b) = pow2 a * pow2 b"
  by (simp add: pow2_def powr_add)

lemma pow2_0: "pow2 0 = 1"
  by (simp add: pow2_def)

lemma pow2_nat: "pow2 (int n) = 2 ^ n"
  by (simp add: pow2_def powr_realpow)

lemma pow2_neg_nat: "pow2 (- int n) = 1 / 2 ^ n"
  by (simp add: pow2_def powr_minus powr_realpow divide_inverse)

lemma pow2_inverse: "pow2 a * pow2 (- a) = 1"
  using pow2_add [of a "- a"] by (simp add: pow2_0)

lemma pow2_mono: "a \<le> b \<Longrightarrow> pow2 a \<le> pow2 b"
  by (simp add: pow2_def)

lemma pow2_strict_mono: "a < b \<Longrightarrow> pow2 a < pow2 b"
  by (simp add: pow2_def)

lemma pow2_Suc: "pow2 (e + 1) = 2 * pow2 e"
  using pow2_add [of e 1] pow2_nat [of 1] by simp

lemma expo_bounds:
  assumes "x \<noteq> 0"
  shows "pow2 (expo x) \<le> \<bar>x\<bar>" "\<bar>x\<bar> < pow2 (expo x + 1)"
proof -
  have p: "0 < \<bar>x\<bar>" using assms by simp
  have "of_int (expo x) \<le> log 2 \<bar>x\<bar>" by (simp add: expo_def)
  then show "pow2 (expo x) \<le> \<bar>x\<bar>"
    using p by (simp add: pow2_def le_log_iff)
  have "log 2 \<bar>x\<bar> < of_int (expo x + 1)" by (simp add: expo_def)
  then show "\<bar>x\<bar> < pow2 (expo x + 1)"
    using p by (simp add: pow2_def log_less_iff del: of_int_add)
qed

lemma expo_eqI:
  assumes "pow2 e \<le> \<bar>x\<bar>" and "\<bar>x\<bar> < pow2 (e + 1)"
  shows "expo x = e"
proof -
  have p: "0 < \<bar>x\<bar>" using assms(1) pow2_pos [of e] by linarith
  have "of_int e \<le> log 2 \<bar>x\<bar>" using assms(1) p by (simp add: pow2_def le_log_iff)
  moreover have "log 2 \<bar>x\<bar> < of_int e + 1"
    using assms(2) p by (simp add: pow2_def log_less_iff)
  ultimately show ?thesis unfolding expo_def by linarith
qed

lemma expo_minus: "expo (- x) = expo x"
  by (simp add: expo_def)

lemma fl_0: "fl 0 = 0"
  by (simp add: fl_def)

lemma fl_minus: "fl (- x) = - fl x"
  by (simp add: fl_def expo_minus rint_minus)

text \<open>The scaled significand lies between 2^52 and 2^53.\<close>

lemma scaled_bounds:
  assumes "x \<noteq> 0"
  shows "2 ^ 52 \<le> \<bar>x\<bar> * pow2 (52 - expo x)" "\<bar>x\<bar> * pow2 (52 - expo x) < 2 ^ 53"
proof -
  have a: "pow2 (expo x) * pow2 (52 - expo x) = 2 ^ 52"
    using pow2_add [of "expo x" "52 - expo x"] pow2_nat [of 52] by simp
  have b: "pow2 (expo x + 1) * pow2 (52 - expo x) = 2 ^ 53"
    using pow2_add [of "expo x + 1" "52 - expo x"] pow2_nat [of 53] by simp
  show "2 ^ 52 \<le> \<bar>x\<bar> * pow2 (52 - expo x)"
    using mult_right_mono [OF expo_bounds(1) [OF assms], of "pow2 (52 - expo x)"]
      pow2_pos [of "52 - expo x"] a by simp
  show "\<bar>x\<bar> * pow2 (52 - expo x) < 2 ^ 53"
    using mult_strict_right_mono [OF expo_bounds(2) [OF assms] pow2_pos [of "52 - expo x"]] b
    by simp
qed

lemma fl_eqI:
  assumes "pow2 e \<le> \<bar>x\<bar>" and "\<bar>x\<bar> < pow2 (e + 1)"
  shows "fl x = of_int (rint (x * pow2 (52 - e))) * pow2 (e - 52)"
proof -
  have "x \<noteq> 0" using assms(1) pow2_pos [of e] by auto
  then show ?thesis by (simp add: fl_def expo_eqI [OF assms])
qed

lemma fl_eq_up:
  assumes "2 ^ 52 \<le> \<bar>x\<bar> * 2 ^ k" and "\<bar>x\<bar> * 2 ^ k < 2 ^ 53"
  shows "fl x = of_int (rint (x * 2 ^ k)) / 2 ^ k"
proof -
  have k: "pow2 (int k) = 2 ^ k" by (rule pow2_nat)
  have i: "pow2 (52 - int k) * 2 ^ k = 2 ^ 52"
    using pow2_add [of "52 - int k" "int k"] pow2_nat [of 52] k by simp
  have j: "pow2 (52 - int k + 1) * 2 ^ k = 2 ^ 53"
    using pow2_add [of "52 - int k + 1" "int k"] pow2_nat [of 53] k by simp
  have "pow2 (52 - int k) * 2 ^ k \<le> \<bar>x\<bar> * 2 ^ k" using assms(1) i by simp
  then have a: "pow2 (52 - int k) \<le> \<bar>x\<bar>" by simp
  have "\<bar>x\<bar> * 2 ^ k < pow2 (52 - int k + 1) * 2 ^ k" using assms(2) j by simp
  then have b: "\<bar>x\<bar> < pow2 (52 - int k + 1)" by simp
  have "fl x = of_int (rint (x * pow2 (52 - (52 - int k)))) * pow2 (52 - int k - 52)"
    by (rule fl_eqI [OF a b])
  then show ?thesis by (simp add: k pow2_neg_nat)
qed

lemma fl_eq_down:
  assumes "2 ^ 52 \<le> \<bar>x\<bar> / 2 ^ k" and "\<bar>x\<bar> / 2 ^ k < 2 ^ 53"
  shows "fl x = of_int (rint (x / 2 ^ k)) * 2 ^ k"
proof -
  have k: "pow2 (int k) = 2 ^ k" by (rule pow2_nat)
  have i: "pow2 (52 + int k) = 2 ^ 52 * 2 ^ k"
    using pow2_add [of 52 "int k"] pow2_nat [of 52] k by simp
  have j: "pow2 (52 + int k + 1) = 2 ^ 53 * 2 ^ k"
    using pow2_add [of 53 "int k"] pow2_nat [of 53] k by (simp add: add.commute add.left_commute)
  have a: "pow2 (52 + int k) \<le> \<bar>x\<bar>" using assms(1) i by (simp add: pos_le_divide_eq)
  have b: "\<bar>x\<bar> < pow2 (52 + int k + 1)" using assms(2) j by (simp add: pos_divide_less_eq)
  have "fl x = of_int (rint (x * pow2 (52 - (52 + int k)))) * pow2 (52 + int k - 52)"
    by (rule fl_eqI [OF a b])
  then show ?thesis by (simp add: k pow2_neg_nat)
qed

lemma fl_1: "fl 1 = 1"
  using fl_eq_up [of 1 52] by (simp add: rint_of_int [of "2 ^ 52", simplified])

lemma real_pow2_le: "(2::int) ^ k \<le> r \<Longrightarrow> (2::real) ^ k \<le> of_int r"
  using of_int_le_iff [of "2 ^ k" r, where ?'a = real] by simp

lemma real_le_pow2: "r \<le> (2::int) ^ k \<Longrightarrow> real_of_int r \<le> 2 ^ k"
  using of_int_le_iff [of r "2 ^ k", where ?'a = real] by simp

lemma real_abs_less_pow2: "\<bar>n\<bar> < (2::int) ^ k \<Longrightarrow> \<bar>real_of_int n\<bar> < 2 ^ k"
  using of_int_less_iff [of "\<bar>n\<bar>" "2 ^ k", where ?'a = real] by simp

lemma rint_2p52: "rint (2 ^ 52) = 2 ^ 52" "rint (2 ^ 53) = 2 ^ 53"
  using rint_of_int [of "2 ^ 52"] rint_of_int [of "2 ^ 53"] by simp_all

lemma pow2_shift52: "2 ^ 52 * pow2 (e - 52) = pow2 e" "2 ^ 53 * pow2 (e - 52) = pow2 (e + 1)"
  using pow2_add [of 52 "e - 52"] pow2_add [of 53 "e - 52"] pow2_nat [of 52] pow2_nat [of 53]
  by (simp_all add: add.commute)

lemma fl_range_pos:
  assumes "0 < x"
  shows "pow2 (expo x) \<le> fl x" "fl x \<le> pow2 (expo x + 1)"
proof -
  let ?m = "x * pow2 (52 - expo x)"
  have x: "x \<noteq> 0" "\<bar>x\<bar> = x" using assms by simp_all
  have lo: "2 ^ 52 \<le> ?m" and hi: "?m < 2 ^ 53"
    using scaled_bounds [OF x(1)] x(2) by simp_all
  have "(2::int) ^ 52 \<le> rint ?m" using rint_ge [of "2 ^ 52" ?m] lo by simp
  then have "(2::real) ^ 52 \<le> of_int (rint ?m)" by (rule real_pow2_le)
  then have "2 ^ 52 * pow2 (expo x - 52) \<le> of_int (rint ?m) * pow2 (expo x - 52)"
    using pow2_pos [of "expo x - 52"] by simp
  then have "pow2 (expo x) \<le> of_int (rint ?m) * pow2 (expo x - 52)"
    by (simp only: pow2_shift52)
  then show "pow2 (expo x) \<le> fl x" using x(1) by (simp only: fl_def if_False)
  have "rint ?m \<le> (2::int) ^ 53" using rint_le [of ?m "2 ^ 53"] hi by simp
  then have "of_int (rint ?m) \<le> (2::real) ^ 53" by (rule real_le_pow2)
  then have "of_int (rint ?m) * pow2 (expo x - 52) \<le> 2 ^ 53 * pow2 (expo x - 52)"
    using pow2_pos [of "expo x - 52"] by simp
  then have "of_int (rint ?m) * pow2 (expo x - 52) \<le> pow2 (expo x + 1)"
    by (simp only: pow2_shift52)
  then show "fl x \<le> pow2 (expo x + 1)" using x(1) by (simp only: fl_def if_False)
qed

lemma fl_pos: "0 < x \<Longrightarrow> 0 < fl x"
  using fl_range_pos(1) [of x] pow2_pos [of "expo x"] by linarith

lemma fl_nonneg: "0 \<le> x \<Longrightarrow> 0 \<le> fl x"
  using fl_pos [of x] by (cases "x = 0") (simp_all add: fl_0 less_eq_real_def)

lemma fl_nonpos: "x \<le> 0 \<Longrightarrow> fl x \<le> 0"
  using fl_nonneg [of "- x"] by (simp add: fl_minus)

lemma fl_neg: "x < 0 \<Longrightarrow> fl x < 0"
  using fl_pos [of "- x"] by (simp add: fl_minus)

lemma expo_mono_pos:
  assumes "0 < x" and "x \<le> y"
  shows "expo x \<le> expo y"
proof -
  have "log 2 x \<le> log 2 y" using assms by simp
  then show ?thesis using assms by (simp add: expo_def floor_mono)
qed

lemma fl_mono_pos:
  assumes "0 < x" and "x \<le> y"
  shows "fl x \<le> fl y"
proof (cases "expo x = expo y")
  case True
  have "x * pow2 (52 - expo y) \<le> y * pow2 (52 - expo y)"
    using assms(2) pow2_pos [of "52 - expo y"] by simp
  then have "rint (x * pow2 (52 - expo y)) \<le> rint (y * pow2 (52 - expo y))"
    by (rule rint_mono)
  then have "real_of_int (rint (x * pow2 (52 - expo y))) * pow2 (expo y - 52)
      \<le> real_of_int (rint (y * pow2 (52 - expo y))) * pow2 (expo y - 52)"
    using pow2_pos [of "expo y - 52"] by simp
  then show ?thesis using assms True by (simp add: fl_def)
next
  case False
  have y: "0 < y" using assms by linarith
  have "expo x < expo y" using False expo_mono_pos [OF assms] by linarith
  then have "pow2 (expo x + 1) \<le> pow2 (expo y)" by (intro pow2_mono) simp
  then show ?thesis
    using fl_range_pos(2) [OF assms(1)] fl_range_pos(1) [OF y] by linarith
qed

lemma fl_mono:
  assumes "x \<le> y"
  shows "fl x \<le> fl y"
proof -
  consider "0 < x" | "x \<le> 0" "0 \<le> y" | "y < 0" by linarith
  then show ?thesis
  proof cases
    case 1
    then show ?thesis using assms by (rule fl_mono_pos)
  next
    case 2
    then show ?thesis using fl_nonpos [of x] fl_nonneg [of y] by linarith
  next
    case 3
    then have "0 < - y" "- y \<le> - x" using assms by simp_all
    then have "fl (- y) \<le> fl (- x)" by (rule fl_mono_pos)
    then show ?thesis by (simp add: fl_minus)
  qed
qed


lemma fl_repr:
  assumes "\<bar>n\<bar> < 2 ^ 53"
  shows "fl (of_int n * pow2 q) = of_int n * pow2 q"
proof (cases "n = 0")
  case True
  then show ?thesis by (simp add: fl_0)
next
  case False
  let ?y = "of_int n * pow2 q"
  have y: "?y \<noteq> 0" using False pow2_pos [of q] by simp
  have "\<bar>?y\<bar> = \<bar>of_int n\<bar> * pow2 q" using pow2_pos [of q] by (simp add: abs_mult)
  moreover have "\<bar>real_of_int n\<bar> < 2 ^ 53" using assms by (rule real_abs_less_pow2)
  ultimately have "\<bar>?y\<bar> < 2 ^ 53 * pow2 q" using pow2_pos [of q] by simp
  also have "\<dots> = pow2 (53 + q)" using pow2_add [of 53 q] pow2_nat [of 53] by simp
  finally have lt: "pow2 (expo ?y) < pow2 (53 + q)" using expo_bounds(1) [OF y] by linarith
  have e: "expo ?y < 53 + q"
  proof (rule ccontr)
    assume "\<not> expo ?y < 53 + q"
    then have "53 + q \<le> expo ?y" by simp
    then have "pow2 (53 + q) \<le> pow2 (expo ?y)" by (rule pow2_mono)
    with lt show False by linarith
  qed
  define k where "k = nat (q + 52 - expo ?y)"
  have k: "int k = q + 52 - expo ?y" using e by (simp add: k_def)
  have pk: "pow2 q * pow2 (52 - expo ?y) = 2 ^ k"
    using pow2_add [of q "52 - expo ?y"] pow2_nat [of k] k by (simp add: algebra_simps)
  then have m: "?y * pow2 (52 - expo ?y) = of_int (n * 2 ^ k)" by (simp add: mult.assoc)
  have "pow2 q * pow2 (52 - expo ?y) * pow2 (expo ?y - 52) = pow2 q"
    using pow2_inverse [of "52 - expo ?y"] by (simp add: mult.assoc)
  then have bck: "2 ^ k * pow2 (expo ?y - 52) = pow2 q"
    using pk by simp
  have "fl ?y = of_int (rint (?y * pow2 (52 - expo ?y))) * pow2 (expo ?y - 52)"
    using y by (simp add: fl_def)
  also have "\<dots> = of_int (n * 2 ^ k) * pow2 (expo ?y - 52)"
    by (simp only: m rint_of_int)
  also have "\<dots> = of_int n * (2 ^ k * pow2 (expo ?y - 52))" by simp
  also have "\<dots> = ?y" by (simp only: bck)
  finally show ?thesis .
qed

lemma fl_idem: "fl (fl x) = fl x"
proof (cases "x = 0")
  case True
  then show ?thesis by (simp add: fl_0)
next
  case False
  let ?m = "x * pow2 (52 - expo x)"
  have fx: "fl x = of_int (rint ?m) * pow2 (expo x - 52)" using False by (simp add: fl_def)
  have "\<bar>?m\<bar> < 2 ^ 53" using scaled_bounds(2) [OF False] pow2_pos [of "52 - expo x"]
    by (simp add: abs_mult)
  then have "?m \<le> 2 ^ 53" "- (2 ^ 53) \<le> ?m" by linarith+
  then have "rint ?m \<le> 2 ^ 53" "- (2 ^ 53) \<le> rint ?m"
    using rint_le [of ?m "2 ^ 53"] rint_ge [of "- (2 ^ 53)" ?m] by simp_all
  then consider "\<bar>rint ?m\<bar> < 2 ^ 53" | "rint ?m = 2 ^ 53" | "rint ?m = - (2 ^ 53)" by linarith
  then show ?thesis
  proof cases
    case 1
    then show ?thesis unfolding fx by (rule fl_repr)
  next
    case 2
    then have "fl x = of_int 1 * pow2 (expo x + 1)" using fx pow2_shift52(2) [of "expo x"] by simp
    moreover have "fl (of_int 1 * pow2 (expo x + 1)) = of_int 1 * pow2 (expo x + 1)"
      by (rule fl_repr) simp
    ultimately show ?thesis by simp
  next
    case 3
    then have "fl x = of_int (- 1) * pow2 (expo x + 1)"
      using fx pow2_shift52(2) [of "expo x"] by simp
    moreover have "fl (of_int (- 1) * pow2 (expo x + 1)) = of_int (- 1) * pow2 (expo x + 1)"
      by (rule fl_repr) simp
    ultimately show ?thesis by simp
  qed
qed

lemma fl_of_int:
  assumes "\<bar>n\<bar> \<le> 2 ^ 53"
  shows "fl (of_int n) = of_int n"
proof -
  consider "\<bar>n\<bar> < 2 ^ 53" | "n = 2 ^ 53" | "n = - (2 ^ 53)" using assms by linarith
  then show ?thesis
  proof cases
    case 1
    then show ?thesis using fl_repr [of n 0] by (simp add: pow2_0)
  next
    case 2
    then show ?thesis using fl_repr [of 1 53] pow2_nat [of 53] by simp
  next
    case 3
    then show ?thesis using fl_repr [of "- 1" 53] pow2_nat [of 53] by simp
  qed
qed

lemma fl_of_nat: "n \<le> 2 ^ 53 \<Longrightarrow> fl (real n) = real n"
  using fl_of_int [of "int n"] by simp

lemma fl_dyadic:
  assumes "\<bar>n\<bar> < 2 ^ 53"
  shows "fl (of_int n / 2 ^ k) = of_int n / 2 ^ k"
  using fl_repr [OF assms, of "- int k"] by (simp add: pow2_neg_nat)

lemma fl_le_of_int: "x \<le> of_int n \<Longrightarrow> \<bar>n\<bar> \<le> 2 ^ 53 \<Longrightarrow> fl x \<le> of_int n"
  using fl_mono [of x "of_int n"] fl_of_int [of n] by simp

lemma fl_ge_of_int: "of_int n \<le> x \<Longrightarrow> \<bar>n\<bar> \<le> 2 ^ 53 \<Longrightarrow> of_int n \<le> fl x"
  using fl_mono [of "of_int n" x] fl_of_int [of n] by simp

section \<open>Counter and the most frequent token\<close>

lemma counter_incr_keys: "fst ` set (counter_incr w d) = insert w (fst ` set d)"
  by (induction w d rule: counter_incr.induct) auto

lemma counter_incr_distinct:
  "distinct (map fst d) \<Longrightarrow> distinct (map fst (counter_incr w d))"
proof (induction w d rule: counter_incr.induct)
  case (1 w)
  then show ?case by simp
next
  case (2 w k c kcs)
  then show ?case
    using counter_incr_keys [of w kcs] by (auto simp: image_iff)
qed

lemma counter_incr_map_of:
  "map_of (counter_incr w d) v =
     (if v = w then Some (Suc (case map_of d w of None \<Rightarrow> 0 | Some c \<Rightarrow> c)) else map_of d v)"
  by (induction w d rule: counter_incr.induct) auto

lemma counter_fold_keys:
  "fst ` set (foldl (\<lambda>d w. counter_incr w d) d ws) = fst ` set d \<union> set ws"
  by (induction ws arbitrary: d) (auto simp: counter_incr_keys)

lemma counter_fold_distinct:
  "distinct (map fst d) \<Longrightarrow> distinct (map fst (foldl (\<lambda>d w. counter_incr w d) d ws))"
  by (induction ws arbitrary: d) (auto simp: counter_incr_distinct)

lemma counter_fold_map_of:
  "map_of (foldl (\<lambda>d w. counter_incr w d) d ws) v =
     (if v \<in> set ws \<or> v \<in> fst ` set d
      then Some ((case map_of d v of None \<Rightarrow> 0 | Some c \<Rightarrow> c) + count_list ws v)
      else None)"
proof (induction ws arbitrary: d)
  case Nil
  show ?case
    by (cases "map_of d v") (auto simp: map_of_eq_None_iff dest: map_of_SomeD intro: rev_image_eqI)
next
  case (Cons w ws)
  show ?case
    by (simp add: Cons.IH counter_incr_map_of counter_incr_keys)
qed

lemma Counter_keys: "fst ` set (Counter ws) = set ws"
  by (simp add: Counter_def counter_fold_keys)

lemma Counter_distinct: "distinct (map fst (Counter ws))"
  by (simp add: Counter_def counter_fold_distinct)

lemma Counter_map_of:
  "map_of (Counter ws) v = (if v \<in> set ws then Some (count_list ws v) else None)"
  by (simp add: Counter_def counter_fold_map_of)

lemma Counter_items: "set (Counter ws) = (\<lambda>w. (w, count_list ws w)) ` set ws"
proof (rule set_eqI)
  fix kc :: "'a \<times> nat"
  obtain k c where kc: "kc = (k, c)" by (cases kc)
  have "(k, c) \<in> set (Counter ws) \<longleftrightarrow> map_of (Counter ws) k = Some c"
    using Counter_distinct [of ws] by simp
  also have "\<dots> \<longleftrightarrow> k \<in> set ws \<and> c = count_list ws k"
    by (auto simp: Counter_map_of)
  finally show "kc \<in> set (Counter ws) \<longleftrightarrow> kc \<in> (\<lambda>w. (w, count_list ws w)) ` set ws"
    using kc by auto
qed

lemma Counter_counts: "snd ` set (Counter ws) = count_list ws ` set ws"
  by (simp add: Counter_items image_image)

lemma Counter_empty_iff: "Counter ws = [] \<longleftrightarrow> ws = []"
  using Counter_keys [of ws] by (metis image_is_empty set_empty)

lemma max_by_count_snd: "snd (max_by_count best kcs) = Max (snd ` set (best # kcs))"
proof (induction best kcs rule: max_by_count.induct)
  case (1 best)
  show ?case by simp
next
  case (2 best kc kcs)
  show ?case
  proof (cases "snd best < snd kc")
    case True
    then have "max (snd best) (Max (insert (snd kc) (snd ` set kcs))) = Max (insert (snd kc) (snd ` set kcs))"
      by (simp add: max_absorb2 Max_ge_iff)
    with True 2 show ?thesis by simp
  next
    case False
    then have "Max (insert (snd best) (insert (snd kc) (snd ` set kcs))) = Max (insert (snd best) (snd ` set kcs))"
      by (cases "kcs = []") (auto simp: max_def)
    with False 2 show ?thesis by simp
  qed
qed

lemma most_common1_Counter:
  assumes "ws \<noteq> []"
  shows "\<exists>kc. most_common1 (Counter ws) = [kc] \<and> snd kc = Max (count_list ws ` set ws)"
proof -
  obtain kc kcs where d: "Counter ws = kc # kcs"
    using assms Counter_empty_iff [of ws] by (cases "Counter ws") auto
  have "snd (max_by_count kc kcs) = Max (snd ` set (Counter ws))"
    by (simp add: max_by_count_snd d)
  then have "snd (max_by_count kc kcs) = Max (count_list ws ` set ws)"
    by (simp only: Counter_counts)
  then show ?thesis
    by (simp add: most_common1_def d)
qed


section \<open>Signs and order under rounding\<close>

lemma fl_eq_0_iff: "fl x = 0 \<longleftrightarrow> x = 0"
proof
  assume h: "fl x = 0"
  show "x = 0"
  proof (rule ccontr)
    assume "x \<noteq> 0"
    then consider "0 < x" | "x < 0" by linarith
    then show False
    proof cases
      case 1
      then show False using fl_pos [of x] h by simp
    next
      case 2
      then show False using fl_neg [of x] h by simp
    qed
  qed
next
  assume "x = 0"
  then show "fl x = 0" by (simp add: fl_0)
qed

lemma fl_le_1: "x \<le> 1 \<Longrightarrow> fl x \<le> 1"
  using fl_mono [of x 1] by (simp add: fl_1)

lemma fl_abs: "fl \<bar>x\<bar> = \<bar>fl x\<bar>"
proof (cases "0 \<le> x")
  case True
  then show ?thesis using fl_nonneg [of x] by simp
next
  case False
  then show ?thesis using fl_neg [of x] by (simp add: fl_minus)
qed

section \<open>Sums that stay within a set closed under addition\<close>

lemma foldl_fadd_closed:
  assumes "\<And>x y. P x \<Longrightarrow> P y \<Longrightarrow> P (fadd x y)" and "P r" and "\<forall>x \<in> set a. P x"
  shows "P (foldl fadd r a)"
  using assms(2,3) by (induction a arbitrary: r) (simp_all add: assms(1))

lemma map2_closed:
  assumes "\<And>x y. P x \<Longrightarrow> P y \<Longrightarrow> P (fadd x y)"
    and "\<forall>x \<in> set r. P x" and "\<forall>x \<in> set t. P x"
  shows "\<forall>x \<in> set (map2 fadd r t). P x"
  using assms by (auto simp: set_zip)

lemma add_blocks_closed:
  assumes c: "\<And>x y. P x \<Longrightarrow> P y \<Longrightarrow> P (fadd x y)"
  shows "length r = 8 \<Longrightarrow> \<forall>x \<in> set r. P x \<Longrightarrow> \<forall>x \<in> set a. P x \<Longrightarrow>
     length (fst (add_blocks r a)) = 8 \<and> (\<forall>x \<in> set (fst (add_blocks r a)). P x) \<and>
     (\<forall>x \<in> set (snd (add_blocks r a)). P x)"
proof (induction r a rule: add_blocks.induct)
  case (1 r a)
  show ?case
  proof (cases "length a < 8")
    case True
    then show ?thesis using 1(2-4) by (simp add: add_blocks.simps [of r a])
  next
    case False
    have t: "\<forall>x \<in> set (take 8 a). P x" using 1(4) by (meson in_set_takeD)
    have d: "\<forall>x \<in> set (drop 8 a). P x" using 1(4) by (meson in_set_dropD)
    have l: "length (map2 fadd r (take 8 a)) = 8" using False 1(2) by simp
    have m: "\<forall>x \<in> set (map2 fadd r (take 8 a)). P x"
      using c 1(3) t by (rule map2_closed)
    show ?thesis
      using 1(1) [OF False l m d] False by (simp add: add_blocks.simps [of r a])
  qed
qed

lemma unrolled_sum_closed:
  assumes c: "\<And>x y. P x \<Longrightarrow> P y \<Longrightarrow> P (fadd x y)"
    and "8 \<le> length a" and a: "\<forall>x \<in> set a. P x"
  shows "P (unrolled_sum a)"
proof -
  obtain r rest where rr: "add_blocks (take 8 a) (drop 8 a) = (r, rest)" by (cases "add_blocks (take 8 a) (drop 8 a)")
  have l: "length (take 8 a) = 8" using assms(2) by simp
  have t: "\<forall>x \<in> set (take 8 a). P x" using a by (meson in_set_takeD)
  have d: "\<forall>x \<in> set (drop 8 a). P x" using a by (meson in_set_dropD)
  from add_blocks_closed [of P, OF c l t d] rr
  have r: "length r = 8" "\<forall>x \<in> set r. P x" "\<forall>x \<in> set rest. P x" by simp_all
  have n: "P (r ! 0)" "P (r ! 1)" "P (r ! 2)" "P (r ! 3)" "P (r ! 4)" "P (r ! 5)" "P (r ! 6)" "P (r ! 7)"
    using r(1,2) by (simp_all add: nth_mem)
  have h: "P (fadd (fadd (fadd (r ! 0) (r ! 1)) (fadd (r ! 2) (r ! 3)))
                (fadd (fadd (r ! 4) (r ! 5)) (fadd (r ! 6) (r ! 7))))"
    by (intro c n)
  have "P (foldl fadd (fadd (fadd (fadd (r ! 0) (r ! 1)) (fadd (r ! 2) (r ! 3)))
                (fadd (fadd (r ! 4) (r ! 5)) (fadd (r ! 6) (r ! 7)))) rest)"
    using c h r(3) by (rule foldl_fadd_closed)
  then show ?thesis by (simp add: unrolled_sum_def rr)
qed

lemma pairwise_sum_closed:
  assumes c: "\<And>x y. P x \<Longrightarrow> P y \<Longrightarrow> P (fadd x y)" and z: "P 0"
  shows "\<forall>x \<in> set a. P x \<Longrightarrow> P (pairwise_sum a)"
proof (induction a rule: pairwise_sum.induct)
  case (1 a)
  consider "length a < 8" | "8 \<le> length a" "length a \<le> 128" | "128 < length a" by linarith
  then show ?case
  proof cases
    case 1
    then show ?thesis
      using foldl_fadd_closed [of P 0 a, OF c z "1.prems"] by (simp add: pairwise_sum.simps [of a])
  next
    case 2
    then show ?thesis
      using unrolled_sum_closed [of P a, OF c 2(1) "1.prems"] by (simp add: pairwise_sum.simps [of a])
  next
    case 3
    let ?n = "length a div 2 - length a div 2 mod 8"
    have g: "\<not> length a < 8" "\<not> length a \<le> 128" using 3 by simp_all
    have t: "\<forall>x \<in> set (take ?n a). P x" using "1.prems" by (meson in_set_takeD)
    have d: "\<forall>x \<in> set (drop ?n a). P x" using "1.prems" by (meson in_set_dropD)
    have "P (fadd (pairwise_sum (take ?n a)) (pairwise_sum (drop ?n a)))"
      using "1.IH"(1) [OF g t] "1.IH"(2) [OF g d] by (rule c)
    then show ?thesis using g by (simp add: pairwise_sum.simps [of a])
  qed
qed

lemma np_sum_closed:
  assumes c: "\<And>x y. P x \<Longrightarrow> P y \<Longrightarrow> P (fadd x y)" and z: "P 0"
    and a: "\<forall>x \<in> set a. P x"
  shows "P (np_sum a)"
  unfolding np_sum_def using z pairwise_sum_closed [of P a, OF c z a] by (rule c)

lemma np_sum_nonneg: "\<forall>x \<in> set a. 0 \<le> x \<Longrightarrow> 0 \<le> np_sum a"
  by (rule np_sum_closed [of "\<lambda>x. 0 \<le> x"]) (simp_all add: fadd_def fl_nonneg)

lemma np_sum_zero: "\<forall>x \<in> set a. x = 0 \<Longrightarrow> np_sum a = 0"
  by (rule np_sum_closed [of "\<lambda>x. x = 0"]) (simp_all add: fadd_def fl_0)

section \<open>Ranges of the features\<close>

lemma np_var_Fin: "xs \<noteq> [] \<Longrightarrow> \<exists>v. np_var xs = Fin v \<and> 0 \<le> v"
proof -
  assume ne: "xs \<noteq> []"
  let ?m = "fl (real (sum_list xs) / real (length xs))"
  let ?q = "map (\<lambda>d. fl (d * d)) (map (\<lambda>v. fl (real v - ?m)) xs)"
  have "\<forall>x \<in> set ?q. 0 \<le> x" by (auto intro: fl_nonneg)
  then have "0 \<le> np_sum ?q" by (rule np_sum_nonneg)
  then have "0 \<le> fl (np_sum ?q / real (length xs))" by (intro fl_nonneg) simp
  then show ?thesis using ne by (simp add: np_var_def Let_def)
qed

lemma np_var_NaN_iff: "np_var xs = NaN \<longleftrightarrow> xs = []"
  by (simp add: np_var_def Let_def)

lemma np_std_Fin: "xs \<noteq> [] \<Longrightarrow> \<exists>d. np_std xs = Fin d \<and> 0 \<le> d"
  using np_var_Fin [of xs] by (auto simp: np_std_def fl_nonneg)

lemma sum_list_zero_all_zero: "sum_list xs = (0::nat) \<Longrightarrow> \<forall>x \<in> set xs. x = 0"
  by (induction xs) auto

lemma np_mean_zero_iff: "np_mean xs = Fin 0 \<longleftrightarrow> xs \<noteq> [] \<and> sum_list xs = 0"
  by (auto simp: np_mean_def fl_eq_0_iff)

lemma np_mean_zero_std_zero:
  assumes "np_mean xs = Fin 0"
  shows "np_std xs = Fin 0"
proof -
  from assms have ne: "xs \<noteq> []" and s: "sum_list xs = 0"
    by (simp_all add: np_mean_zero_iff)
  have z: "\<forall>x \<in> set xs. x = 0" using s by (rule sum_list_zero_all_zero)
  have m: "fl (real (sum_list xs) / real (length xs)) = 0" unfolding s by (simp add: fl_0)
  let ?q = "map (\<lambda>d. fl (d * d)) (map (\<lambda>v. fl (real v - 0)) xs)"
  have "\<forall>x \<in> set ?q. x = 0" using z by (auto simp: fl_0)
  then have "np_sum ?q = 0" by (rule np_sum_zero)
  then have "np_var xs = Fin 0"
    using ne by (simp only: np_var_def Let_def m if_False) (simp add: fl_0)
  then show ?thesis
    by (simp add: np_std_def fl_0)
qed

lemma burstiness_NaN_iff:
  "burstiness_of ls = NaN \<longleftrightarrow> ls = [] \<or> sum_list ls = 0"
proof (cases "ls = []")
  case True
  then show ?thesis by (simp add: burstiness_of_def np_mean_def np_std_def np_var_def)
next
  case False
  then obtain d where "np_std ls = Fin d" using np_std_Fin by blast
  with False show ?thesis by (simp add: burstiness_of_def np_mean_def fl_eq_0_iff)
qed

lemma burstiness_Fin_nonneg:
  assumes "burstiness_of ls = Fin b"
  shows "0 \<le> b"
proof -
  from assms have ne: "ls \<noteq> []"
    by (auto simp: burstiness_of_def np_mean_def)
  then obtain d where d: "np_std ls = Fin d" "0 \<le> d" using np_std_Fin by blast
  let ?m = "fl (real (sum_list ls) / real (length ls))"
  have m: "0 \<le> ?m" by (intro fl_nonneg) simp
  from assms ne d have "b = fl (d / ?m)"
    by (auto simp: burstiness_of_def np_mean_def split: if_splits)
  with d m show ?thesis by (simp add: fl_nonneg)
qed

lemma ttr_of_range:
  assumes "ws \<noteq> []"
  shows "\<exists>t. ttr_of ws = Inr t \<and> t = fl (real (length (remdups ws)) / real (length ws))
           \<and> 0 < t \<and> t \<le> 1"
proof -
  have "remdups ws \<noteq> []" using assms by simp
  then have "0 < length (remdups ws)" by simp
  moreover have "length (remdups ws) \<le> length ws" by (rule length_remdups_leq)
  ultimately have "0 < real (length (remdups ws)) / real (length ws)"
    "real (length (remdups ws)) / real (length ws) \<le> 1"
    using assms by simp_all
  then show ?thesis
    using assms by (simp add: ttr_of_def py_truediv_def fl_pos fl_le_1)
qed

lemma count_list_le_length: "count_list ws w \<le> length ws"
  by (induction ws) auto

lemma max_count_range:
  assumes "ws \<noteq> []"
  shows "0 < Max (count_list ws ` set ws)" "Max (count_list ws ` set ws) \<le> length ws"
proof -
  have fin: "finite (count_list ws ` set ws)" by simp
  have ne: "count_list ws ` set ws \<noteq> {}" using assms by simp
  have "hd ws \<in> set ws" using assms by simp
  then have "0 < count_list ws (hd ws)" by (metis count_list_0_iff gr0I)
  moreover have "count_list ws (hd ws) \<le> Max (count_list ws ` set ws)"
    using \<open>hd ws \<in> set ws\<close> by (intro Max_ge) auto
  ultimately show "0 < Max (count_list ws ` set ws)" by linarith
  show "Max (count_list ws ` set ws) \<le> length ws"
    using fin ne by (auto simp: Max_le_iff count_list_le_length)
qed

lemma common_ratio_of_range:
  assumes "ws \<noteq> []"
  shows "\<exists>r. common_ratio_of ws = Inr r
           \<and> r = fl (real (Max (count_list ws ` set ws)) / real (length ws))
           \<and> 0 < r \<and> r \<le> 1"
proof -
  obtain kc where kc: "most_common1 (Counter ws) = [kc]" "snd kc = Max (count_list ws ` set ws)"
    using most_common1_Counter [OF assms] by blast
  have "0 < real (Max (count_list ws ` set ws)) / real (length ws)"
    "real (Max (count_list ws ` set ws)) / real (length ws) \<le> 1"
    using assms max_count_range [OF assms] by simp_all
  then show ?thesis
    using assms kc by (simp add: common_ratio_of_def py_truediv_def fl_pos fl_le_1)
qed

lemma analyze_text_features_cases:
  "analyze_text_features E text =
     (if text = [] \<or> length (strip text) < 50 \<or> word_tokenize E (lower E text) = [] then Inr None
      else
        let words = word_tokenize E (lower E text);
            ls = sent_lengths_of E (sent_tokenize E text);
            ttr = fl (real (length (remdups words)) / real (length words));
            r = fl (real (Max (count_list words ` set words)) / real (length words));
            ai = np_round (np_mul (score_of ttr (burstiness_of ls) r (np_var ls)) (Fin 100)) 2
        in Inr (Some
             \<lparr> text_length = length text,
               sentence_count = length (sent_tokenize E text),
               lexical_diversity = py_round ttr 3,
               sentence_length_variation = np_round (burstiness_of ls) 3,
               readability = py_round (flesch_reading_ease E text) 2,
               repetition_rate = py_round r 3,
               perplexity_proxy = np_round (np_var ls) 2,
               ai_score = ai,
               result_label = label_of ai \<rparr>))"
proof (cases "text = [] \<or> length (strip text) < 50 \<or> word_tokenize E (lower E text) = []")
  case True
  then show ?thesis by (auto simp: analyze_text_features_def Let_def)
next
  case False
  then have ne: "word_tokenize E (lower E text) \<noteq> []" by simp
  obtain r where r: "common_ratio_of (word_tokenize E (lower E text)) = Inr r"
     "r = fl (real (Max (count_list (word_tokenize E (lower E text)) ` set (word_tokenize E (lower E text))))
          / real (length (word_tokenize E (lower E text))))"
    using common_ratio_of_range [OF ne] by blast
  have t: "ttr_of (word_tokenize E (lower E text)) =
      Inr (fl (real (length (remdups (word_tokenize E (lower E text)))) / real (length (word_tokenize E (lower E text)))))"
    using ne by (simp add: ttr_of_def py_truediv_def)
  show ?thesis
    using False r t by (simp add: analyze_text_features_def Let_def del: np_round.simps np_mul.simps)
qed

section \<open>Labels and preconditions\<close>

lemma np_less_Fin_iff: "np_less x y \<longleftrightarrow> (\<exists>r. x = Fin r \<and> r < y)"
  by (cases x) auto

lemma labels_distinct:
  "label_human \<noteq> label_ambiguous" "label_ambiguous \<noteq> label_ai" "label_human \<noteq> label_ai"
  by (simp_all add: label_human_def label_ambiguous_def label_ai_def)

lemma analyze_label:
  "analyze_text_features E text = Inr (Some a) \<Longrightarrow> result_label a = label_of (ai_score a)"
  by (auto simp: analyze_text_features_cases Let_def split: if_splits)

lemma analyze_no_error: "analyze_text_features E text \<noteq> Inl e"
  by (simp add: analyze_text_features_cases Let_def)

lemma strip_all_space:
  assumes "\<forall>c \<in> set s. is_space c"
  shows "strip s = []"
proof -
  have "dropWhile is_space s = []"
    using assms by (simp add: dropWhile_eq_Nil_conv)
  then show ?thesis by (simp add: strip_def del: dropWhile_eq_Nil_conv)
qed

subsection \<open>Evaluating a run from its parts\<close>

lemma demo_env_sel:
  "sent_tokenize demo_env = demo_sentences" "word_tokenize demo_env = demo_words"
  "lower demo_env = demo_lower" "flesch_reading_ease demo_env = (\<lambda>s. 0)"
  by (simp_all add: demo_env_def)

lemma analyze_eval:
  assumes "text \<noteq> []" and "50 \<le> length (strip text)"
    and "word_tokenize E (lower E text) = ws" and "ws \<noteq> []"
    and "ttr_of ws = Inr t" and "common_ratio_of ws = Inr r"
    and "sent_lengths_of E (sent_tokenize E text) = ls"
    and "burstiness_of ls = b" and "np_var ls = v"
    and "np_round (np_mul (score_of t b r v) (Fin 100)) 2 = ai"
  shows "analyze_text_features E text =
     Inr (Some \<lparr> text_length = length text,
                sentence_count = length (sent_tokenize E text),
                lexical_diversity = py_round t 3,
                sentence_length_variation = np_round b 3,
                readability = py_round (flesch_reading_ease E text) 2,
                repetition_rate = py_round r 3,
                perplexity_proxy = np_round v 2,
                ai_score = ai,
                result_label = label_of ai \<rparr>)"
  using assms by (simp add: analyze_text_features_def Let_def del: np_round.simps np_mul.simps)

section \<open>Float values of the concrete runs\<close>

text \<open>
  Each value below is the float64 nearest to the argument: the argument scaled by the
  stated power of two lies between \<open>2 ^ 52\<close> and \<open>2 ^ 53\<close>, and is rounded there.
\<close>

lemma flv_1: "fl (1 / 6) = (6004799503160661 / 36028797018963968)"
  using fl_eq_up [of "(1 / 6)" 55] by (simp add: rint_def Let_def)

lemma flv_2: "fl (1 / 3) = (6004799503160661 / 18014398509481984)"
  using fl_eq_up [of "(1 / 3)" 54] by (simp add: rint_def Let_def)

lemma flv_3: "fl 3 = 3"
  using fl_eq_up [of "3" 51] by (simp add: rint_def Let_def)

lemma flv_4: "fl (3 / 10) = (5404319552844595 / 18014398509481984)"
  using fl_eq_up [of "(3 / 10)" 54] by (simp add: rint_def Let_def)

lemma flv_5: "fl (1 / 5) = (3602879701896397 / 18014398509481984)"
  using fl_eq_up [of "(1 / 5)" 55] by (simp add: rint_def Let_def)

lemma flv_6: "fl (30023997515803307 / 36028797018963968) = (7505999378950827 / 9007199254740992)"
  using fl_eq_up [of "(30023997515803307 / 36028797018963968)" 53] by (simp add: rint_def Let_def)

lemma flv_7: "fl (40564819207303341148134477730065 / 162259276829213363391578010288128) = (1 / 4)"
  using fl_eq_up [of "(40564819207303341148134477730065 / 162259276829213363391578010288128)" 54] by (simp add: rint_def Let_def)

lemma flv_8: "fl 1 = 1"
  using fl_eq_up [of "1" 52] by (simp add: rint_def Let_def)

lemma flv_9: "fl (3602879701896397 / 18014398509481984) = (3602879701896397 / 18014398509481984)"
  using fl_eq_up [of "(3602879701896397 / 18014398509481984)" 55] by (simp add: rint_def Let_def)

lemma flv_10: "fl (21634570243895115118877068038417 / 324518553658426726783156020576256) = (4803839602528529 / 72057594037927936)"
  using fl_eq_up [of "(21634570243895115118877068038417 / 324518553658426726783156020576256)" 56] by (simp add: rint_def Let_def)

lemma flv_11: "fl (5404319552844595 / 18014398509481984) = (5404319552844595 / 18014398509481984)"
  using fl_eq_up [of "(5404319552844595 / 18014398509481984)" 54] by (simp add: rint_def Let_def)

lemma flv_12: "fl (8106479329266893 / 18014398509481984) = (8106479329266893 / 18014398509481984)"
  using fl_eq_up [of "(8106479329266893 / 18014398509481984)" 54] by (simp add: rint_def Let_def)

lemma flv_13: "fl (37229756919596101 / 72057594037927936) = (4653719614949513 / 9007199254740992)"
  using fl_eq_up [of "(37229756919596101 / 72057594037927936)" 53] by (simp add: rint_def Let_def)

lemma flv_14: "fl (14711758782743621 / 18014398509481984) = (3677939695685905 / 4503599627370496)"
  using fl_eq_up [of "(14711758782743621 / 18014398509481984)" 53] by (simp add: rint_def Let_def)

lemma flv_15: "fl (91948492392147625 / 1125899906842624) = (5746780774509227 / 70368744177664)"
  using fl_eq_up [of "(91948492392147625 / 1125899906842624)" 46] by (simp add: rint_def Let_def)

lemma flv_16: "fl (143669519362730675 / 17592186044416) = (8979344960170667 / 1099511627776)"
  using fl_eq_up [of "(143669519362730675 / 17592186044416)" 40] by (simp add: rint_def Let_def)

lemma flv_17: "fl (8167 / 100) = (5747015336989819 / 70368744177664)"
  using fl_eq_up [of "(8167 / 100)" 46] by (simp add: rint_def Let_def)

lemma flv_18: "fl (167 / 1000) = (6016809102166983 / 36028797018963968)"
  using fl_eq_up [of "(167 / 1000)" 55] by (simp add: rint_def Let_def)

lemma flv_19: "fl (333 / 1000) = (5998794703657501 / 18014398509481984)"
  using fl_eq_up [of "(333 / 1000)" 54] by (simp add: rint_def Let_def)

lemma flv_20: "fl (1 / 30) = (4803839602528529 / 144115188075855872)"
  using fl_eq_up [of "(1 / 30)" 57] by (simp add: rint_def Let_def)

lemma flv_21: "fl 6 = 6"
  using fl_eq_up [of "6" 50] by (simp add: rint_def Let_def)

lemma flv_22: "fl 5 = 5"
  using fl_eq_up [of "5" 50] by (simp add: rint_def Let_def)

lemma flv_23: "fl 20 = 20"
  using fl_eq_up [of "20" 48] by (simp add: rint_def Let_def)

lemma flv_24: "fl 25 = 25"
  using fl_eq_up [of "25" 48] by (simp add: rint_def Let_def)

lemma flv_25: "fl 400 = 400"
  using fl_eq_up [of "400" 44] by (simp add: rint_def Let_def)

lemma flv_26: "fl 50 = 50"
  using fl_eq_up [of "50" 47] by (simp add: rint_def Let_def)

lemma flv_27: "fl 75 = 75"
  using fl_eq_up [of "75" 46] by (simp add: rint_def Let_def)

lemma flv_28: "fl 100 = 100"
  using fl_eq_up [of "100" 46] by (simp add: rint_def Let_def)

lemma flv_29: "fl 500 = 500"
  using fl_eq_up [of "500" 44] by (simp add: rint_def Let_def)

lemma flv_30: "fl 10 = 10"
  using fl_eq_up [of "10" 49] by (simp add: rint_def Let_def)

lemma flv_31: "fl (5 / 3) = (7505999378950827 / 4503599627370496)"
  using fl_eq_up [of "(5 / 3)" 52] by (simp add: rint_def Let_def)

lemma flv_32: "fl (3002399751580331 / 4503599627370496) = (3002399751580331 / 4503599627370496)"
  using fl_eq_up [of "(3002399751580331 / 4503599627370496)" 53] by (simp add: rint_def Let_def)

lemma flv_33: "fl (10817285121947559360878384967407 / 81129638414606681695789005144064) = (2401919801264265 / 18014398509481984)"
  using fl_eq_up [of "(10817285121947559360878384967407 / 81129638414606681695789005144064)" 55] by (simp add: rint_def Let_def)

lemma flv_34: "fl (17307656195116092815677594810013 / 2596148429267413814265248164610048) = (7686143364045647 / 1152921504606846976)"
  using fl_eq_up [of "(17307656195116092815677594810013 / 2596148429267413814265248164610048)" 60] by (simp add: rint_def Let_def)

lemma flv_35: "fl (2401919801264265 / 18014398509481984) = (2401919801264265 / 18014398509481984)"
  using fl_eq_up [of "(2401919801264265 / 18014398509481984)" 55] by (simp add: rint_def Let_def)

lemma flv_36: "fl (146036723916867313 / 1152921504606846976) = (570455952800263 / 4503599627370496)"
  using fl_eq_up [of "(146036723916867313 / 1152921504606846976)" 55] by (simp add: rint_def Let_def)

lemma flv_37: "fl (570455952800263 / 4503599627370496) = (570455952800263 / 4503599627370496)"
  using fl_eq_up [of "(570455952800263 / 4503599627370496)" 55] by (simp add: rint_def Let_def)

lemma flv_38: "fl (14261398820006575 / 1125899906842624) = (891337426250411 / 70368744177664)"
  using fl_eq_up [of "(14261398820006575 / 1125899906842624)" 49] by (simp add: rint_def Let_def)

lemma flv_39: "fl (22283435656260275 / 17592186044416) = (5570858914065069 / 4398046511104)"
  using fl_eq_up [of "(22283435656260275 / 17592186044416)" 42] by (simp add: rint_def Let_def)

lemma flv_40: "fl (1267 / 100) = (7132575909848023 / 562949953421312)"
  using fl_eq_up [of "(1267 / 100)" 49] by (simp add: rint_def Let_def)

lemma flv_41: "fl (938249922368853375 / 562949953421312) = (7330077518506667 / 4398046511104)"
  using fl_eq_up [of "(938249922368853375 / 562949953421312)" 42] by (simp add: rint_def Let_def)

lemma flv_42: "fl (1667 / 1000) = (7507500578826617 / 4503599627370496)"
  using fl_eq_up [of "(1667 / 1000)" 52] by (simp add: rint_def Let_def)

lemma flv_43: "fl (33 / 1000) = (1188950301625811 / 36028797018963968)"
  using fl_eq_up [of "(33 / 1000)" 57] by (simp add: rint_def Let_def)

lemma flv_44: "fl 10000 = 10000"
  using fl_eq_up [of "10000" 39] by (simp add: rint_def Let_def)

lemma flv_45: "fl (1 / 10) = (3602879701896397 / 36028797018963968)"
  using fl_eq_up [of "(1 / 10)" 56] by (simp add: rint_def Let_def)

lemma flv_46: "fl 2 = 2"
  using fl_eq_up [of "2" 51] by (simp add: rint_def Let_def)

lemma flv_47: "fl 4 = 4"
  using fl_eq_up [of "4" 50] by (simp add: rint_def Let_def)

lemma flv_48: "fl 16 = 16"
  using fl_eq_up [of "16" 48] by (simp add: rint_def Let_def)

lemma flv_49: "fl (12980742146337070512478121581609 / 649037107316853453566312041152512) = (1441151880758559 / 72057594037927936)"
  using fl_eq_up [of "(12980742146337070512478121581609 / 649037107316853453566312041152512)" 58] by (simp add: rint_def Let_def)

lemma flv_50: "fl (1441151880758559 / 72057594037927936) = (1441151880758559 / 72057594037927936)"
  using fl_eq_up [of "(1441151880758559 / 72057594037927936)" 58] by (simp add: rint_def Let_def)

lemma flv_51: "fl (23058430092136939 / 72057594037927936) = (5764607523034235 / 18014398509481984)"
  using fl_eq_up [of "(23058430092136939 / 72057594037927936)" 54] by (simp add: rint_def Let_def)

lemma flv_52: "fl (144115188075855875 / 4503599627370496) = 32"
  using fl_eq_up [of "(144115188075855875 / 4503599627370496)" 47] by (simp add: rint_def Let_def)

lemma flv_53: "fl 3200 = 3200"
  using fl_eq_up [of "3200" 41] by (simp add: rint_def Let_def)

lemma flv_54: "fl 32 = 32"
  using fl_eq_up [of "32" 47] by (simp add: rint_def Let_def)

lemma flv_55: "fl 1000 = 1000"
  using fl_eq_up [of "1000" 43] by (simp add: rint_def Let_def)

lemma flv_56: "fl (11 / 16) = (11 / 16)"
  using fl_eq_up [of "(11 / 16)" 53] by (simp add: rint_def Let_def)

lemma flv_57: "fl (1 / 4) = (1 / 4)"
  using fl_eq_up [of "(1 / 4)" 54] by (simp add: rint_def Let_def)

lemma flv_58: "fl 8 = 8"
  using fl_eq_up [of "8" 49] by (simp add: rint_def Let_def)

lemma flv_59: "fl (1 / 2) = (1 / 2)"
  using fl_eq_up [of "(1 / 2)" 53] by (simp add: rint_def Let_def)

lemma flv_60: "fl (5 / 16) = (5 / 16)"
  using fl_eq_up [of "(5 / 16)" 54] by (simp add: rint_def Let_def)

lemma flv_61: "fl (27021597764222975 / 288230376151711744) = (3 / 32)"
  using fl_eq_up [of "(27021597764222975 / 288230376151711744)" 56] by (simp add: rint_def Let_def)

lemma flv_62: "fl (3602879701896397 / 36028797018963968) = (3602879701896397 / 36028797018963968)"
  using fl_eq_up [of "(3602879701896397 / 36028797018963968)" 56] by (simp add: rint_def Let_def)

lemma flv_63: "fl (3602879701896397 / 72057594037927936) = (3602879701896397 / 72057594037927936)"
  using fl_eq_up [of "(3602879701896397 / 72057594037927936)" 57] by (simp add: rint_def Let_def)

lemma flv_64: "fl (6980579422424269 / 36028797018963968) = (6980579422424269 / 36028797018963968)"
  using fl_eq_up [of "(6980579422424269 / 36028797018963968)" 55] by (simp add: rint_def Let_def)

lemma flv_65: "fl (17564038546744935 / 72057594037927936) = (2195504818343117 / 9007199254740992)"
  using fl_eq_up [of "(17564038546744935 / 72057594037927936)" 55] by (simp add: rint_def Let_def)

lemma flv_66: "fl (9795329189530829 / 18014398509481984) = (2448832297382707 / 4503599627370496)"
  using fl_eq_up [of "(9795329189530829 / 18014398509481984)" 53] by (simp add: rint_def Let_def)

lemma flv_67: "fl (61220807434567675 / 1125899906842624) = (7652600929320959 / 140737488355328)"
  using fl_eq_up [of "(61220807434567675 / 1125899906842624)" 47] by (simp add: rint_def Let_def)

lemma flv_68: "fl (191315023233023975 / 35184372088832) = (5978594476031999 / 1099511627776)"
  using fl_eq_up [of "(191315023233023975 / 35184372088832)" 40] by (simp add: rint_def Let_def)

lemma flv_69: "fl (5437 / 100) = (7651897241879183 / 140737488355328)"
  using fl_eq_up [of "(5437 / 100)" 47] by (simp add: rint_def Let_def)

lemma flv_70: "fl (86 / 125) = (3098476543630901 / 4503599627370496)"
  using fl_eq_up [of "(86 / 125)" 53] by (simp add: rint_def Let_def)

lemma flv_71: "fl 1600 = 1600"
  using fl_eq_up [of "1600" 42] by (simp add: rint_def Let_def)

lemma flv_72: "fl (2719 / 50) = (7653304616762737 / 140737488355328)"
  using fl_eq_up [of "(2719 / 50)" 47] by (simp add: rint_def Let_def)

lemma flv_73: "fl (5407 / 100) = (7609675995372585 / 140737488355328)"
  using fl_eq_up [of "(5407 / 100)" 47] by (simp add: rint_def Let_def)

lemma flv_74: "fl (3203 / 100) = (1126955438005289 / 35184372088832)"
  using fl_eq_up [of "(3203 / 100)" 47] by (simp add: rint_def Let_def)

lemma flv_75: "fl (801 / 25) = (4509229126904709 / 140737488355328)"
  using fl_eq_up [of "(801 / 25)" 47] by (simp add: rint_def Let_def)

lemma flv_76: "fl 60 = 60"
  using fl_eq_up [of "60" 47] by (simp add: rint_def Let_def)

lemma flv_77: "fl 150 = 150"
  using fl_eq_up [of "150" 45] by (simp add: rint_def Let_def)

lemma flv_78: "fl 5000 = 5000"
  using fl_eq_up [of "5000" 40] by (simp add: rint_def Let_def)

lemma flv_79: "fl (9017050878925865 / 140737488355328) = (1127131359865733 / 17592186044416)"
  using fl_eq_up [of "(9017050878925865 / 140737488355328)" 46] by (simp add: rint_def Let_def)

lemma flv_80: "fl (1127131359865733 / 17592186044416) = (1127131359865733 / 17592186044416)"
  using fl_eq_up [of "(1127131359865733 / 17592186044416)" 46] by (simp add: rint_def Let_def)

lemma flv_81: "fl (1127131359865733 / 35184372088832) = (1127131359865733 / 35184372088832)"
  using fl_eq_up [of "(1127131359865733 / 35184372088832)" 47] by (simp add: rint_def Let_def)

lemma flv_82: "fl (28178283996643325 / 8796093022208) = (7044570999160831 / 2199023255552)"
  using fl_eq_up [of "(28178283996643325 / 8796093022208)" 41] by (simp add: rint_def Let_def)

lemma flv_83: "fl (5747015336989819 / 70368744177664) = (5747015336989819 / 70368744177664)"
  using fl_eq_up [of "(5747015336989819 / 70368744177664)" 46] by (simp add: rint_def Let_def)

lemma flv_84: "fl (7998815150675067 / 70368744177664) = (7998815150675067 / 70368744177664)"
  using fl_eq_up [of "(7998815150675067 / 70368744177664)" 46] by (simp add: rint_def Let_def)

lemma flv_85: "fl (7998815150675067 / 140737488355328) = (7998815150675067 / 140737488355328)"
  using fl_eq_up [of "(7998815150675067 / 140737488355328)" 47] by (simp add: rint_def Let_def)

lemma flv_86: "fl (199970378766876675 / 35184372088832) = (11367 / 2)"
  using fl_eq_up [of "(199970378766876675 / 35184372088832)" 40] by (simp add: rint_def Let_def)

lemma flv_87: "fl (1421 / 25) = (1999879709529211 / 35184372088832)"
  using fl_eq_up [of "(1421 / 25)" 47] by (simp add: rint_def Let_def)

lemma flv_88: "fl (12610078956637389 / 18014398509481984) = (3152519739159347 / 4503599627370496)"
  using fl_eq_up [of "(12610078956637389 / 18014398509481984)" 53] by (simp add: rint_def Let_def)

lemma flv_89: "fl (18014398509481983 / 18014398509481984) = 1"
  using fl_eq_up [of "(18014398509481983 / 18014398509481984)" 53] by (simp add: rint_def Let_def)

lemma flv_90: "fl (7 / 10) = (3152519739159347 / 4503599627370496)"
  using fl_eq_up [of "(7 / 10)" 53] by (simp add: rint_def Let_def)

lemmas fl_vals = fl_0 fl_minus
  flv_1 flv_2 flv_3 flv_4 flv_5 flv_6 flv_7 flv_8 flv_9 flv_10
  flv_11 flv_12 flv_13 flv_14 flv_15 flv_16 flv_17 flv_18 flv_19 flv_20
  flv_21 flv_22 flv_23 flv_24 flv_25 flv_26 flv_27 flv_28 flv_29 flv_30
  flv_31 flv_32 flv_33 flv_34 flv_35 flv_36 flv_37 flv_38 flv_39 flv_40
  flv_41 flv_42 flv_43 flv_44 flv_45 flv_46 flv_47 flv_48 flv_49 flv_50
  flv_51 flv_52 flv_53 flv_54 flv_55 flv_56 flv_57 flv_58 flv_59 flv_60
  flv_61 flv_62 flv_63 flv_64 flv_65 flv_66 flv_67 flv_68 flv_69 flv_70
  flv_71 flv_72 flv_73 flv_74 flv_75 flv_76 flv_77 flv_78 flv_79 flv_80
  flv_81 flv_82 flv_83 flv_84 flv_85 flv_86 flv_87 flv_88 flv_89 flv_90

lemma sqrt_vals: "sqrt 0 = 0" "sqrt 4 = 2" "sqrt 16 = 4" "sqrt 100 = 10"
  using real_sqrt_abs [of 2] real_sqrt_abs [of 4] real_sqrt_abs [of 10] by simp_all


lemma np_sum_3: "np_sum [a, b, c] = fl (fl (fl a + b) + c)"
  by (simp add: np_sum_def pairwise_sum.simps [of "[a, b, c]"] fadd_def fl_idem)

lemma np_sum_5: "np_sum [a, b, c, d, e] = fl (fl (fl (fl (fl a + b) + c) + d) + e)"
  by (simp add: np_sum_def pairwise_sum.simps [of "[a, b, c, d, e]"] fadd_def fl_idem)

lemma np_sum_6: "np_sum [a, b, c, d, e, f] = fl (fl (fl (fl (fl (fl a + b) + c) + d) + e) + f)"
  by (simp add: np_sum_def pairwise_sum.simps [of "[a, b, c, d, e, f]"] fadd_def fl_idem)

subsection \<open>The repeated-sentence document, evaluated\<close>

lemma strip_ai: "strip text_ai = text_ai"
  by (simp add: strip_def text_ai_def is_space_def)

lemma words_ai: "demo_words (demo_lower text_ai) =
   [[97,98],[99,100],[101,102],[97,98],[99,100],[101,102],[97,98],[99,100],[101,102],
    [97,98],[99,100],[101,102],[97,98],[99,100],[101,102],[97,98],[99,100],[101,102]]"
  by (simp add: demo_words_def demo_lower_def text_ai_def is_space_def)

lemma sents_ai:
  "sent_lengths_of demo_env (sent_tokenize demo_env text_ai) = [3,3,3,3,3,3]"
  by (simp add: sent_lengths_of_def demo_env_sel demo_words_def demo_sentences_def
      text_ai_def is_space_def)

lemma counter_ai: "most_common1 (Counter (demo_words (demo_lower text_ai))) = [([97,98], 6)]"
  by (simp add: words_ai Counter_def most_common1_def)

lemma ttr_ai: "ttr_of (demo_words (demo_lower text_ai)) = Inr (fl (1 / 6))"
  by (simp add: words_ai ttr_of_def py_truediv_def)

lemma ratio_ai: "common_ratio_of (demo_words (demo_lower text_ai)) = Inr (fl (1 / 3))"
  by (simp add: common_ratio_of_def counter_ai) (simp add: words_ai py_truediv_def)

lemma var_ai: "np_var [3,3,3,3,3,3] = Fin 0"
  by (simp add: np_var_def np_sum_6 fl_vals)

lemma burst_ai: "burstiness_of [3,3,3,3,3,3] = Fin 0"
proof -
  have d: "np_std [3,3,3,3,3,3] = Fin 0"
    by (simp only: np_std_def var_ai npfloat.case sqrt_vals fl_0)
  have m: "np_mean [3,3,3,3,3,3] = Fin 3"
    by (simp add: np_mean_def fl_vals)
  show ?thesis
    by (simp only: burstiness_of_def d m np_div.simps) (simp add: fl_0)
qed

lemma score_ai:
  "np_round (np_mul (score_of (fl (1 / 6)) (Fin 0) (fl (1 / 3)) (Fin 0)) (Fin 100)) 2
     = Fin (fl 81.67)"
  by (simp add: score_of_def bool_times_def fl_vals rint_def Let_def)

lemma analyze_ai: "analyze_text_features demo_env text_ai = Inr (Some analysis_ai)"
proof -
  have l: "text_ai \<noteq> []" "50 \<le> length (strip text_ai)"
    by (simp_all add: strip_ai) (simp_all add: text_ai_def)
  have w: "word_tokenize demo_env (lower demo_env text_ai) = demo_words (demo_lower text_ai)"
    by (simp add: demo_env_sel)
  have ne: "demo_words (demo_lower text_ai) \<noteq> []" by (simp add: words_ai)
  have e: "analyze_text_features demo_env text_ai =
     Inr (Some \<lparr> text_length = length text_ai,
                sentence_count = length (sent_tokenize demo_env text_ai),
                lexical_diversity = py_round (fl (1 / 6)) 3,
                sentence_length_variation = np_round (Fin 0) 3,
                readability = py_round (flesch_reading_ease demo_env text_ai) 2,
                repetition_rate = py_round (fl (1 / 3)) 3,
                perplexity_proxy = np_round (Fin 0) 2,
                ai_score = Fin (fl 81.67),
                result_label = label_of (Fin (fl 81.67)) \<rparr>)"
    by (rule analyze_eval [OF l w ne ttr_ai ratio_ai sents_ai burst_ai var_ai score_ai])
  have f: "length text_ai = 59" "length (demo_sentences text_ai) = 6"
    by (simp_all add: demo_sentences_def text_ai_def)
  have r3: "py_round (fl (1 / 6)) 3 = fl 0.167" "py_round (fl (1 / 3)) 3 = fl 0.333"
    "py_round 0 2 = 0" "np_round (Fin 0) 3 = Fin 0" "np_round (Fin 0) 2 = Fin 0"
    by (simp_all add: py_round_def fl_vals rint_def Let_def)
  have lab: "label_of (Fin (fl 81.67)) = label_ai" by (simp add: label_of_def fl_vals)
  show ?thesis
    by (simp only: e f r3 lab analysis_ai_def demo_env_sel)
qed

lemma analyze_Some_words:
  "analyze_text_features E text = Inr (Some a) \<Longrightarrow> word_tokenize E (lower E text) \<noteq> []"
  by (auto simp: analyze_text_features_cases split: if_splits)

subsection \<open>The varied document, evaluated\<close>

lemma strip_varied: "strip text_varied = text_varied"
  by (simp add: strip_def text_varied_def is_space_def)

lemma words_varied: "demo_words (demo_lower text_varied) =
   [[97],[98],[99],[100],[101],[102],[103],[104],[105],[106],[107],[108],[109],[110],[111],
    [112],[113],[114],[115],[116],[117],[118],[119],[120],[121],[122],[48],[49],[50],[51]]"
  by (simp add: demo_words_def demo_lower_def text_varied_def is_space_def)

lemma sents_varied:
  "sent_lengths_of demo_env (sent_tokenize demo_env text_varied) = [1,1,1,1,26]"
  by (simp add: sent_lengths_of_def demo_env_def demo_words_def demo_sentences_def
      text_varied_def is_space_def)

lemma ttr_varied: "ttr_of (demo_words (demo_lower text_varied)) = Inr 1"
  by (simp add: words_varied ttr_of_def py_truediv_def fl_1)

lemma ratio_varied: "common_ratio_of (demo_words (demo_lower text_varied)) = Inr (fl (1 / 30))"
  by (simp add: words_varied common_ratio_of_def Counter_def most_common1_def py_truediv_def)

lemma var_varied: "np_var [1,1,1,1,26] = Fin 100"
  by (simp add: np_var_def np_sum_5 fl_vals)

lemma burst_varied: "burstiness_of [1,1,1,1,26] = Fin (fl (5 / 3))"
proof -
  have d: "np_std [1,1,1,1,26] = Fin (fl 10)"
    by (simp only: np_std_def var_varied npfloat.case sqrt_vals)
  have m: "np_mean [1,1,1,1,26] = Fin (fl 6)"
    by (simp add: np_mean_def)
  have v: "fl 10 = 10" "fl 6 = 6" by (simp_all add: fl_vals)
  show ?thesis
    by (simp only: burstiness_of_def d m np_div.simps v) simp
qed

lemma score_varied:
  "np_round (np_mul (score_of 1 (Fin (fl (5 / 3))) (fl (1 / 30)) (Fin 100)) (Fin 100)) 2
     = Fin (- fl 12.67)"
  by (simp add: score_of_def bool_times_def fl_vals rint_def Let_def)

lemma analyze_varied: "analyze_text_features demo_env text_varied = Inr (Some analysis_varied)"
proof -
  have l: "text_varied \<noteq> []" "50 \<le> length (strip text_varied)"
    by (simp_all add: strip_varied) (simp_all add: text_varied_def)
  have w: "word_tokenize demo_env (lower demo_env text_varied) = demo_words (demo_lower text_varied)"
    by (simp add: demo_env_sel)
  have ne: "demo_words (demo_lower text_varied) \<noteq> []" by (simp add: words_varied)
  have e: "analyze_text_features demo_env text_varied =
     Inr (Some \<lparr> text_length = length text_varied,
                sentence_count = length (sent_tokenize demo_env text_varied),
                lexical_diversity = py_round 1 3,
                sentence_length_variation = np_round (Fin (fl (5 / 3))) 3,
                readability = py_round (flesch_reading_ease demo_env text_varied) 2,
                repetition_rate = py_round (fl (1 / 30)) 3,
                perplexity_proxy = np_round (Fin 100) 2,
                ai_score = Fin (- fl 12.67),
                result_label = label_of (Fin (- fl 12.67)) \<rparr>)"
    by (rule analyze_eval [OF l w ne ttr_varied ratio_varied sents_varied burst_varied
          var_varied score_varied])
  have f: "length text_varied = 64" "length (demo_sentences text_varied) = 5"
    by (simp_all add: demo_sentences_def text_varied_def)
  have r3: "np_round (Fin (fl (5 / 3))) 3 = Fin (fl 1.667)" "py_round (fl (1 / 30)) 3 = fl 0.033"
    "py_round 1 3 = 1" "np_round (Fin 100) 2 = Fin 100" "py_round 0 2 = 0"
    by (simp_all add: py_round_def fl_vals rint_def Let_def)
  have lab: "label_of (Fin (- fl 12.67)) = label_human" by (simp add: label_of_def fl_vals)
  show ?thesis
    by (simp only: e f r3 lab analysis_varied_def demo_env_sel)
qed

subsection \<open>The two-sentence document, evaluated\<close>










section \<open>The upper end of the score\<close>

lemma fl_weights_nonneg: "0 \<le> fl 0.3" "0 \<le> fl 0.2"
  by (simp_all add: fl_nonneg)

lemma fl_times_weight_le:
  assumes "x \<le> 1" and "0 \<le> w"
  shows "fl (x * fl w) \<le> fl w"
proof -
  have "0 \<le> fl w" using assms(2) by (rule fl_nonneg)
  then have "x * fl w \<le> 1 * fl w" using assms(1) by (intro mult_right_mono)
  then have "fl (x * fl w) \<le> fl (fl w)" by (intro fl_mono) simp
  then show ?thesis by (simp only: fl_idem)
qed

lemma bool_times_le: "0 \<le> w \<Longrightarrow> bool_times q (fl w) \<le> fl w"
  by (cases q) (simp_all add: bool_times_def fl_idem fl_0 fl_nonneg)

lemma weights_add_up:
  "fl (fl 0.3 + fl 0.2) = 1 / 2" "fl (1 / 2 + fl 0.2) = fl 0.7" "fl (fl 0.7 + fl 0.3) = 1"
  by (simp_all add: fl_vals)

lemma score_terms_le_one:
  assumes "t1 \<le> fl 0.3" "t2 \<le> fl 0.2" "t3 \<le> fl 0.2" "t4 \<le> fl 0.3"
  shows "fl (fl (fl (t1 + t2) + t3) + t4) \<le> 1"
proof -
  have "fl (t1 + t2) \<le> fl (fl 0.3 + fl 0.2)" using assms(1,2) by (intro fl_mono) linarith
  then have s1: "fl (t1 + t2) \<le> 1 / 2" by (simp only: weights_add_up)
  have "fl (fl (t1 + t2) + t3) \<le> fl (1 / 2 + fl 0.2)" using s1 assms(3) by (intro fl_mono) linarith
  then have s2: "fl (fl (t1 + t2) + t3) \<le> fl 0.7" by (simp only: weights_add_up)
  have "fl (fl (fl (t1 + t2) + t3) + t4) \<le> fl (fl 0.7 + fl 0.3)"
    using s2 assms(4) by (intro fl_mono) linarith
  then show ?thesis by (simp only: weights_add_up)
qed

lemma np_round2_le_100:
  assumes "c \<le> 1"
  shows "\<exists>s. np_round (np_mul (Fin c) (Fin 100)) 2 = Fin s \<and> s \<le> 100"
proof -
  have "c * 100 \<le> of_int 100" using assms by simp
  then have y: "fl (c * 100) \<le> of_int 100" by (rule fl_le_of_int) simp
  then have "fl (c * 100) * 10\<^sup>2 \<le> of_int 10000" by simp
  then have t: "fl (fl (c * 100) * 10\<^sup>2) \<le> of_int 10000" by (rule fl_le_of_int) simp
  then have "rint (fl (fl (c * 100) * 10\<^sup>2)) \<le> 10000" by (rule rint_le)
  then have "real_of_int (rint (fl (fl (c * 100) * 10\<^sup>2))) \<le> 10000" by linarith
  then have "real_of_int (rint (fl (fl (c * 100) * 10\<^sup>2))) / 10\<^sup>2 \<le> of_int 100" by simp
  then have "fl (real_of_int (rint (fl (fl (c * 100) * 10\<^sup>2))) / 10\<^sup>2) \<le> of_int 100"
    by (rule fl_le_of_int) simp
  then show ?thesis by simp
qed

lemma score_of_bound:
  assumes "0 < ttr" "ttr \<le> 1" "0 < r" "r \<le> 1" "0 \<le> b"
  shows "\<exists>c s. score_of ttr (Fin b) r (Fin pp) = Fin c \<and> c \<le> 1 \<and>
           np_round (np_mul (Fin c) (Fin 100)) 2 = Fin s \<and> s \<le> 100"
proof -
  let ?t1 = "fl (fl (1 - ttr) * fl 0.3)" and ?t2 = "fl (fl (1 - b) * fl 0.2)"
  let ?t3 = "fl (r * fl 0.2)" and ?t4 = "bool_times (pp < 100) (fl 0.3)"
  let ?c = "fl (fl (fl (?t1 + ?t2) + ?t3) + ?t4)"
  have c: "score_of ttr (Fin b) r (Fin pp) = Fin ?c"
    by (simp add: score_of_def)
  have "fl (1 - ttr) \<le> 1" using assms(1) by (intro fl_le_1) simp
  then have t1: "?t1 \<le> fl 0.3" by (rule fl_times_weight_le) simp
  have "fl (1 - b) \<le> 1" using assms(5) by (intro fl_le_1) simp
  then have t2: "?t2 \<le> fl 0.2" by (rule fl_times_weight_le) simp
  have t3: "?t3 \<le> fl 0.2" using assms(4) by (rule fl_times_weight_le) simp
  have t4: "?t4 \<le> fl 0.3" by (rule bool_times_le) simp
  have le: "?c \<le> 1" using t1 t2 t3 t4 by (rule score_terms_le_one)
  obtain s where "np_round (np_mul (Fin ?c) (Fin 100)) 2 = Fin s" "s \<le> 100"
    using np_round2_le_100 [OF le] by blast
  then show ?thesis using c le by blast
qed

section \<open>The batch\<close>

lemma add_file_name_sel:
  "ai_score (add_file_name a n) = ai_score a"
  "result_label (add_file_name a n) = result_label a"
  "file_name (add_file_name a n) = n"
  by (simp_all add: add_file_name_def)

lemma readable_iff: "readable E f \<longleftrightarrow> (\<exists>t. read_file_content E f = Inr t)"
  by (cases "read_file_content E f") (simp_all add: readable_def)

lemma analyze_files_readable:
  "\<forall>f \<in> set files. readable E f \<Longrightarrow>
     analyze_files E files acc = Inr (acc @ List.map_filter (row_of E) files)"
proof (induction files arbitrary: acc)
  case Nil
  show ?case by (simp add: map_filter_simps)
next
  case (Cons f files)
  from Cons.prems obtain t where t: "read_file_content E f = Inr t"
    by (auto simp: readable_iff)
  have rest: "\<forall>g \<in> set files. readable E g" using Cons.prems by simp
  show ?case
  proof (cases "analyze_text_features E t")
    case (Inl e)
    then show ?thesis using analyze_no_error [of E t e] by simp
  next
    case (Inr r)
    show ?thesis
    proof (cases r)
      case None
      with Inr t show ?thesis
        by (simp add: Cons.IH [OF rest] map_filter_simps row_of_def)
    next
      case (Some a)
      with Inr t show ?thesis
        by (simp add: Cons.IH [OF rest] map_filter_simps row_of_def)
    qed
  qed
qed

lemma analyze_files_Inr_readable:
  "analyze_files E files acc = Inr rows \<Longrightarrow> \<forall>f \<in> set files. readable E f"
proof (induction files arbitrary: acc)
  case Nil
  show ?case by simp
next
  case (Cons f files)
  from Cons.prems obtain t where t: "read_file_content E f = Inr t"
    by (cases "read_file_content E f") auto
  then have rf: "readable E f" by (simp add: readable_def)
  from Cons.prems t obtain r where r: "analyze_text_features E t = Inr r"
    by (cases "analyze_text_features E t") auto
  have "\<exists>acc'. analyze_files E files acc' = Inr rows"
    using Cons.prems t r by (cases r) auto
  then have "\<forall>g \<in> set files. readable E g"
    using Cons.IH by blast
  with rf show ?case by simp
qed

lemma analyze_files_Inr_iff:
  "analyze_files E files acc = Inr rows \<longleftrightarrow>
     (\<forall>f \<in> set files. readable E f) \<and> rows = acc @ List.map_filter (row_of E) files"
  using analyze_files_readable [of files E acc] analyze_files_Inr_readable [of E files acc rows]
  by auto

lemma map_filter_Nil_iff: "List.map_filter g xs = [] \<longleftrightarrow> (\<forall>x \<in> set xs. g x = None)"
  by (induction xs) (auto simp: map_filter_simps split: option.splits)

lemma file_name_map_filter:
  "map file_name (List.map_filter (row_of E) files) =
     map (os_path_basename E) (filter (\<lambda>f. row_of E f \<noteq> None) files)"
proof (induction files)
  case Nil
  show ?case by (simp add: map_filter_simps)
next
  case (Cons f files)
  show ?case
  proof (cases "row_of E f")
    case None
    then show ?thesis using Cons.IH by (simp add: map_filter_simps)
  next
    case (Some r)
    then have "file_name r = os_path_basename E f"
      by (auto simp: row_of_def add_file_name_sel split: sum.splits option.splits)
    with Some show ?thesis using Cons.IH by (simp add: map_filter_simps)
  qed
qed

lemma analyze_folder_cases:
  "analyze_folder E p =
     (if discover E p = [] then Inr NoFilesFound
      else case analyze_files E (discover E p) [] of
             Inl e \<Rightarrow> Inl e
           | Inr rows \<Rightarrow> if rows = [] then Inr NoAnalyzableContent
                         else Inr (Report rows (summarize rows)))"
  by (simp add: analyze_folder_def Let_def)

lemma analyze_folder_Report:
  assumes "analyze_folder E p = Inr (Report rows s)"
  shows "rows = List.map_filter (row_of E) (discover E p)" "s = summarize rows" "rows \<noteq> []"
    "\<forall>f \<in> set (discover E p). readable E f"
proof -
  from assms have ne: "discover E p \<noteq> []"
    by (auto simp: analyze_folder_cases split: if_splits)
  from assms ne obtain rs where rs: "analyze_files E (discover E p) [] = Inr rs"
    by (cases "analyze_files E (discover E p) []") (auto simp: analyze_folder_cases)
  from assms ne rs have eq: "rows = rs" "s = summarize rs" "rs \<noteq> []"
    by (auto simp: analyze_folder_cases split: if_splits)
  from rs have "(\<forall>f \<in> set (discover E p). readable E f) \<and> rs = List.map_filter (row_of E) (discover E p)"
    using analyze_files_Inr_iff [of E "discover E p" "[]" rs] by simp
  with eq show "rows = List.map_filter (row_of E) (discover E p)" "s = summarize rows" "rows \<noteq> []"
    "\<forall>f \<in> set (discover E p). readable E f"
    by simp_all
qed

subsection \<open>The three folders, evaluated\<close>

lemmas path_defs = demo_join_def dir_docs_def dir_drafts_def dir_plain_def dir_broken_def
  name_a_def name_b_def name_c_def name_notes_def ext_txt_def ext_docx_def endswith_def

lemma demo_env_fs:
  "os_walk demo_env = demo_walk" "os_path_join demo_env = demo_join"
  "os_path_basename demo_env = demo_basename" "open_read demo_env = demo_open"
  "docx_paragraphs demo_env = demo_docx"
  by (simp_all add: demo_env_def)

lemma discover_docs:
  "discover demo_env dir_docs =
     [demo_join dir_docs name_a, demo_join dir_docs name_b, demo_join dir_docs name_c]"
proof -
  have "filter (\<lambda>f. endswith f ext_txt \<or> endswith f ext_docx) [name_a, name_b, name_c, name_notes]
          = [name_a, name_b, name_c]"
    by (simp add: endswith_def name_a_def name_b_def name_c_def name_notes_def ext_txt_def
        ext_docx_def)
  then show ?thesis
    by (simp add: discover_def demo_env_fs demo_walk_def)
qed

lemma discover_drafts: "discover demo_env dir_drafts = [demo_join dir_drafts name_b]"
proof -
  have "filter (\<lambda>f. endswith f ext_txt \<or> endswith f ext_docx) [name_b] = [name_b]"
    by (simp add: endswith_def name_b_def ext_txt_def)
  moreover have "dir_drafts \<noteq> dir_docs" by (simp add: dir_drafts_def dir_docs_def)
  ultimately show ?thesis
    by (simp add: discover_def demo_env_fs demo_walk_def)
qed

lemma discover_plain: "discover demo_env dir_plain = []"
proof -
  have "filter (\<lambda>f. endswith f ext_txt \<or> endswith f ext_docx) [name_notes] = []"
    by (simp add: endswith_def name_notes_def ext_txt_def ext_docx_def)
  moreover have "dir_plain \<noteq> dir_docs" "dir_plain \<noteq> dir_drafts"
    by (simp_all add: dir_plain_def dir_drafts_def dir_docs_def)
  ultimately show ?thesis
    by (simp add: discover_def demo_env_fs demo_walk_def)
qed

lemma read_a: "read_file_content demo_env (demo_join dir_docs name_a) = Inr text_ai"
proof -
  have "endswith (demo_join dir_docs name_a) ext_txt" by (simp add: path_defs)
  then show ?thesis by (simp add: read_file_content_def demo_env_fs demo_open_def)
qed

lemma read_b: "read_file_content demo_env (demo_join dir_docs name_b) = Inr []"
proof -
  have "endswith (demo_join dir_docs name_b) ext_txt" by (simp add: path_defs)
  moreover have "demo_join dir_docs name_b \<noteq> demo_join dir_docs name_a" by (simp add: path_defs)
  ultimately show ?thesis by (simp add: read_file_content_def demo_env_fs demo_open_def)
qed

lemma read_c:
  "read_file_content demo_env (demo_join dir_docs name_c) = Inr (join newline [para_one, para_two])"
proof -
  have "\<not> endswith (demo_join dir_docs name_c) ext_txt"
    "endswith (demo_join dir_docs name_c) ext_docx" by (simp_all add: path_defs)
  then show ?thesis by (simp add: read_file_content_def demo_env_fs demo_docx_def)
qed

lemma read_draft: "read_file_content demo_env (demo_join dir_drafts name_b) = Inr text_short"
proof -
  have "endswith (demo_join dir_drafts name_b) ext_txt" by (simp add: path_defs)
  moreover have "demo_join dir_drafts name_b \<noteq> demo_join dir_docs name_a"
    "demo_join dir_drafts name_b \<noteq> demo_join dir_docs name_b" by (simp_all add: path_defs)
  ultimately show ?thesis by (simp add: read_file_content_def demo_env_fs demo_open_def)
qed

lemma basename_docs:
  "demo_basename (demo_join dir_docs name_a) = name_a"
  "demo_basename (demo_join dir_docs name_c) = name_c"
  by (simp_all add: demo_basename_def path_defs)

lemma text_doc_eq:
  "text_doc = [97, 108, 112, 104, 97, 46, 32, 98, 114, 97, 118, 111, 46, 32, 100, 101, 108, 116, 97, 46, 32, 103, 97, 109, 109, 97, 46, 10, 115, 105, 103, 109, 97, 32, 107, 97, 112, 112, 97, 32, 111, 109, 101, 103, 97, 32, 116, 104, 101, 116, 97, 32, 108, 97, 109, 98, 100, 97, 32, 122, 101, 116, 97, 46]"
  by (simp add: text_doc_def newline_def para_one_def para_two_def)

lemma strip_doc: "strip text_doc = text_doc"
  by (simp add: strip_def text_doc_eq is_space_def)

lemma words_doc: "word_tokenize demo_env (lower demo_env text_doc) =
   [[97,108,112,104,97], [98,114,97,118,111], [100,101,108,116,97], [103,97,109,109,97],
    [115,105,103,109,97], [107,97,112,112,97], [111,109,101,103,97], [116,104,101,116,97],
    [108,97,109,98,100,97], [122,101,116,97]]"
  by (simp add: demo_env_sel demo_words_def demo_lower_def text_doc_eq is_space_def)

lemma sents_doc: "sent_lengths_of demo_env (sent_tokenize demo_env text_doc) = [1,1,1,1,6]"
  by (simp add: sent_lengths_of_def demo_env_sel demo_words_def demo_sentences_def
      text_doc_eq is_space_def)

lemma var_doc: "np_var [1,1,1,1,6] = Fin 4"
  by (simp add: np_var_def np_sum_5 fl_vals)

lemma burst_doc: "burstiness_of [1,1,1,1,6] = Fin 1"
proof -
  have d: "np_std [1,1,1,1,6] = Fin (fl 2)"
    by (simp only: np_std_def var_doc npfloat.case sqrt_vals)
  have m: "np_mean [1,1,1,1,6] = Fin (fl 2)"
    by (simp add: np_mean_def)
  have v: "fl 2 = 2" "fl 1 = 1" by (simp_all add: fl_vals)
  show ?thesis
    by (simp only: burstiness_of_def d m np_div.simps v) (simp add: v)
qed

lemma analyze_doc: "analyze_text_features demo_env text_doc = Inr (Some analysis_doc)"
proof -
  let ?ws = "[[97,108,112,104,97], [98,114,97,118,111], [100,101,108,116,97], [103,97,109,109,97],
    [115,105,103,109,97], [107,97,112,112,97], [111,109,101,103,97], [116,104,101,116,97],
    [108,97,109,98,100,97], [122,101,116,97::nat]]"
  have l: "text_doc \<noteq> []" "50 \<le> length (strip text_doc)"
    by (simp_all add: strip_doc) (simp_all add: text_doc_eq)
  have ne: "?ws \<noteq> []" by simp
  have t: "ttr_of ?ws = Inr 1"
    by (simp add: ttr_of_def py_truediv_def fl_1)
  have r: "common_ratio_of ?ws = Inr (fl (1 / 10))"
    by (simp add: common_ratio_of_def Counter_def most_common1_def py_truediv_def)
  have s: "np_round (np_mul (score_of 1 (Fin 1) (fl (1 / 10)) (Fin 4)) (Fin 100)) 2 = Fin 32"
    by (simp add: score_of_def bool_times_def fl_vals rint_def Let_def)
  have e: "analyze_text_features demo_env text_doc =
     Inr (Some \<lparr> text_length = length text_doc,
                sentence_count = length (sent_tokenize demo_env text_doc),
                lexical_diversity = py_round 1 3,
                sentence_length_variation = np_round (Fin 1) 3,
                readability = py_round (flesch_reading_ease demo_env text_doc) 2,
                repetition_rate = py_round (fl (1 / 10)) 3,
                perplexity_proxy = np_round (Fin 4) 2,
                ai_score = Fin 32,
                result_label = label_of (Fin 32) \<rparr>)"
    by (rule analyze_eval [OF l words_doc ne t r sents_doc burst_doc var_doc s])
  have f: "length text_doc = 64" "length (demo_sentences text_doc) = 5"
    by (simp_all add: demo_sentences_def text_doc_eq)
  have r3: "py_round 1 3 = 1" "py_round (fl (1 / 10)) 3 = fl 0.1" "np_round (Fin 4) 2 = Fin 4"
    "py_round 0 2 = 0" "np_round (Fin 1) 3 = Fin 1"
    by (simp_all add: py_round_def fl_vals rint_def Let_def)
  have lab: "label_of (Fin 32) = label_human" by (simp add: label_of_def)
  show ?thesis
    by (simp only: e f r3 lab analysis_doc_def demo_env_sel)
qed

lemma analyze_empty: "analyze_text_features E [] = Inr None"
  by (simp add: analyze_text_features_def)

lemma analyze_short: "analyze_text_features E text_short = Inr None"
proof -
  have "length (strip text_short) < 50" by (simp add: strip_def text_short_def is_space_def)
  then show ?thesis by (simp add: analyze_text_features_def)
qed

lemma row_of_docs:
  "row_of demo_env (demo_join dir_docs name_a) = Some (add_file_name analysis_ai name_a)"
  "row_of demo_env (demo_join dir_docs name_b) = None"
  "row_of demo_env (demo_join dir_docs name_c) = Some (add_file_name analysis_doc name_c)"
  using analyze_doc
  by (simp_all add: row_of_def read_a read_b read_c analyze_ai analyze_empty text_doc_def
      demo_env_fs basename_docs)

lemma row_of_draft: "row_of demo_env (demo_join dir_drafts name_b) = None"
  by (simp add: row_of_def read_draft analyze_short)

lemma discover_broken: "discover demo_env dir_broken = [demo_join dir_broken name_c]"
proof -
  have "filter (\<lambda>f. endswith f ext_txt \<or> endswith f ext_docx) [name_c] = [name_c]"
    by (simp add: endswith_def name_c_def ext_txt_def ext_docx_def)
  moreover have "dir_broken \<noteq> dir_docs" "dir_broken \<noteq> dir_drafts" "dir_broken \<noteq> dir_plain"
    by (simp_all add: dir_broken_def dir_plain_def dir_drafts_def dir_docs_def)
  ultimately show ?thesis
    by (simp add: discover_def demo_env_fs demo_walk_def)
qed

lemma read_broken: "read_file_content demo_env (demo_join dir_broken name_c) = Inl OSError"
proof -
  have "\<not> endswith (demo_join dir_broken name_c) ext_txt"
    "endswith (demo_join dir_broken name_c) ext_docx" by (simp_all add: path_defs)
  moreover have "demo_join dir_broken name_c \<noteq> demo_join dir_docs name_c"
    by (simp add: path_defs)
  ultimately show ?thesis by (simp add: read_file_content_def demo_env_fs demo_docx_def)
qed

lemma readable_docs:
  "readable demo_env (demo_join dir_docs name_a)"
  "readable demo_env (demo_join dir_docs name_b)"
  "readable demo_env (demo_join dir_docs name_c)"
  "readable demo_env (demo_join dir_drafts name_b)"
  by (simp_all add: readable_def read_a read_b read_c read_draft)

section \<open>Rounding errors of the weighted sum\<close>










section \<open>Claims\<close>




text \<open>
  Claim C2. On scores between 0 and 100 the label is the human-authored one exactly
  below 40, the ambiguous one exactly from 40 up to but not including 70, and the
  high-probability-AI one exactly from 70 on; the three labels are different strings,
  39.99 is human-authored, 40.00 is ambiguous, 70.00 is high-probability AI, and the
  label that \<open>analyze_text_features\<close> returns is the label of the score it returns.
\<close>

theorem label_thresholds:
  "(0 \<le> s \<and> s \<le> 100 \<longrightarrow>
      (label_of (Fin s) = label_human \<longleftrightarrow> s < 40) \<and>
      (label_of (Fin s) = label_ambiguous \<longleftrightarrow> 40 \<le> s \<and> s < 70) \<and>
      (label_of (Fin s) = label_ai \<longleftrightarrow> 70 \<le> s)) \<and>
   label_of (Fin 39.99) = label_human \<and>
   label_of (Fin 40.00) = label_ambiguous \<and>
   label_of (Fin 70.00) = label_ai \<and>
   (analyze_text_features E text = Inr (Some a) \<longrightarrow> result_label a = label_of (ai_score a))"
  using labels_distinct analyze_label [of E "text" a]
  by (auto simp: label_of_def)

text \<open>The score 40, and the label of the repeated-sentence document.\<close>

theorem label_thresholds_witness:
  "(0::real) \<le> 40 \<and> (40::real) \<le> 100 \<and> label_of (Fin 40) = label_ambiguous \<and>
   label_of (Fin 40) \<noteq> label_human \<and> label_of (Fin 40) \<noteq> label_ai \<and>
   analyze_text_features demo_env text_ai = Inr (Some analysis_ai) \<and>
   result_label analysis_ai = label_of (ai_score analysis_ai)"
  using label_thresholds [of 40 demo_env text_ai analysis_ai] analyze_ai
  by auto

text \<open>
  Claim C3. \<open>analyze_text_features\<close> returns \<open>None\<close> exactly when the text is empty,
  consists of white space only, has fewer than 50 characters once stripped, or has
  no word token; on every other text it returns a dict; it never raises.
\<close>

theorem extractor_no_result:
  "(analyze_text_features E text = Inr None \<longleftrightarrow>
      text = [] \<or> (\<forall>c \<in> set text. is_space c) \<or> length (strip text) < 50
      \<or> word_tokenize E (lower E text) = []) \<and>
   ((\<exists>a. analyze_text_features E text = Inr (Some a)) \<longleftrightarrow>
      \<not> (text = [] \<or> (\<forall>c \<in> set text. is_space c) \<or> length (strip text) < 50
         \<or> word_tokenize E (lower E text) = [])) \<and>
   (\<forall>e. analyze_text_features E text \<noteq> Inl e)"
proof -
  have sp: "(\<forall>c \<in> set text. is_space c) \<Longrightarrow> length (strip text) < 50"
    by (simp add: strip_all_space)
  show ?thesis
    using sp by (auto simp: analyze_text_features_cases Let_def)
qed

text \<open>A text of three white-space characters, the short text, and the repeated-sentence document.\<close>

theorem extractor_no_result_witness:
  "is_space 32 \<and> is_space 9 \<and> is_space 12288 \<and>
   analyze_text_features demo_env [32, 9, 12288] = Inr None \<and>
   length (strip text_short) < 50 \<and>
   analyze_text_features demo_env text_short = Inr None \<and>
   text_ai \<noteq> [] \<and> \<not> is_space (hd text_ai) \<and> 50 \<le> length (strip text_ai) \<and>
   word_tokenize demo_env (lower demo_env text_ai) \<noteq> [] \<and>
   (\<exists>a. analyze_text_features demo_env text_ai = Inr (Some a))"
proof -
  have a: "is_space 32 \<and> is_space 9 \<and> is_space 12288" by (simp add: is_space_def)
  have b: "length (strip text_short) < 50" by (simp add: strip_def text_short_def is_space_def)
  have c: "text_ai \<noteq> []" "\<not> is_space (hd text_ai)" "50 \<le> length (strip text_ai)"
    "word_tokenize demo_env (lower demo_env text_ai) \<noteq> []"
    by (simp_all add: strip_ai demo_env_def words_ai) (simp_all add: text_ai_def is_space_def)
  have d: "\<not> (\<forall>c \<in> set text_ai. is_space c)"
    using c(1,2) by (metis hd_in_set)
  show ?thesis
    using a b c d extractor_no_result [of demo_env "[32, 9, 12288]"]
      extractor_no_result [of demo_env text_short] extractor_no_result [of demo_env text_ai]
    by (simp add: not_less)
qed

text \<open>
  Claim C6. The score is not always within 0 and 100: some analysed text has a
  burstiness above 1, so that the term \<open>(1 - burstiness) * 0.2\<close> is negative, and
  an AI score below 0. The varied document is one: sentence lengths 1, 1, 1, 1 and 26,
  burstiness the float nearest to 5/3, perplexity proxy exactly 100, score the float
  nearest to -12.67.
\<close>

theorem score_below_zero:
  "\<exists>E text a b s.
     analyze_text_features E text = Inr (Some a) \<and>
     burstiness_of (sent_lengths_of E (sent_tokenize E text)) = Fin b \<and>
     1 < b \<and> (1 - b) * 0.2 < 0 \<and> ai_score a = Fin s \<and> s < 0"
proof -
  have "analyze_text_features demo_env text_varied = Inr (Some analysis_varied)"
    by (rule analyze_varied)
  moreover have "burstiness_of (sent_lengths_of demo_env (sent_tokenize demo_env text_varied))
      = Fin (fl (5 / 3))"
    by (simp only: sents_varied burst_varied)
  moreover have "1 < fl (5 / 3)" "(1 - fl (5 / 3)) * 0.2 < 0" by (simp_all add: fl_vals)
  moreover have "ai_score analysis_varied = Fin (- fl 12.67)" "- fl 12.67 < 0"
    by (simp_all add: analysis_varied_def fl_vals)
  ultimately show ?thesis by blast
qed

text \<open>
  Claim C7. Whenever the loop over the files ends, the rows are those of the files
  that \<open>analyze_text_features\<close> accepts, in the order of discovery, the others left
  out, and nothing sorts them; it ends whenever every file can be read. The file
  names of the rows are the base names of the accepted files in that order. For files
  A, B, C with A and C analysable and B not, the rows are those of A and C, in that
  order. The table of \<open>analyze_folder\<close> is this list.
\<close>

theorem records_in_discovery_order:
  "(analyze_files E files [] = Inr rows \<longrightarrow> rows = List.map_filter (row_of E) files) \<and>
   ((\<forall>f \<in> set files. readable E f) \<longrightarrow>
      analyze_files E files [] = Inr (List.map_filter (row_of E) files) \<and>
      map file_name (List.map_filter (row_of E) files) =
        map (os_path_basename E) (filter (\<lambda>f. row_of E f \<noteq> None) files)) \<and>
   (row_of E A = Some ra \<and> readable E B \<and> row_of E B = None \<and> row_of E C = Some rc \<longrightarrow>
      analyze_files E [A, B, C] [] = Inr [ra, rc]) \<and>
   (analyze_folder E p = Inr (Report rows' s) \<longrightarrow>
      rows' = List.map_filter (row_of E) (discover E p))"
proof (intro conjI impI)
  assume "analyze_files E files [] = Inr rows"
  then show "rows = List.map_filter (row_of E) files"
    by (simp add: analyze_files_Inr_iff)
next
  assume "\<forall>f \<in> set files. readable E f"
  then show "analyze_files E files [] = Inr (List.map_filter (row_of E) files)"
    by (simp add: analyze_files_readable)
next
  show "map file_name (List.map_filter (row_of E) files) =
        map (os_path_basename E) (filter (\<lambda>f. row_of E f \<noteq> None) files)"
    by (rule file_name_map_filter)
next
  assume h: "row_of E A = Some ra \<and> readable E B \<and> row_of E B = None \<and> row_of E C = Some rc"
  then have "readable E A" "readable E C"
    by (auto simp: row_of_def readable_def split: sum.splits)
  with h have "\<forall>f \<in> set [A, B, C]. readable E f" by simp
  then have "analyze_files E [A, B, C] [] = Inr ([] @ List.map_filter (row_of E) [A, B, C])"
    by (rule analyze_files_readable)
  with h show "analyze_files E [A, B, C] [] = Inr [ra, rc]"
    by (simp add: map_filter_simps)
next
  assume "analyze_folder E p = Inr (Report rows' s)"
  then show "rows' = List.map_filter (row_of E) (discover E p)"
    by (rule analyze_folder_Report)
qed

text \<open>The folder \<open>docs\<close>: \<open>a.txt\<close> and \<open>c.docx\<close> are analysed, the empty \<open>b.txt\<close> is left out.\<close>

theorem records_in_discovery_order_witness:
  "discover demo_env dir_docs =
     [demo_join dir_docs name_a, demo_join dir_docs name_b, demo_join dir_docs name_c] \<and>
   row_of demo_env (demo_join dir_docs name_a) = Some (add_file_name analysis_ai name_a) \<and>
   readable demo_env (demo_join dir_docs name_b) \<and>
   row_of demo_env (demo_join dir_docs name_b) = None \<and>
   row_of demo_env (demo_join dir_docs name_c) = Some (add_file_name analysis_doc name_c) \<and>
   analyze_files demo_env (discover demo_env dir_docs) [] =
     Inr [add_file_name analysis_ai name_a, add_file_name analysis_doc name_c] \<and>
   analyze_folder demo_env dir_docs =
     Inr (Report [add_file_name analysis_ai name_a, add_file_name analysis_doc name_c]
           (summarize [add_file_name analysis_ai name_a, add_file_name analysis_doc name_c]))"
proof -
  let ?A = "demo_join dir_docs name_a" and ?B = "demo_join dir_docs name_b"
    and ?C = "demo_join dir_docs name_c"
  let ?ra = "add_file_name analysis_ai name_a" and ?rc = "add_file_name analysis_doc name_c"
  have h: "row_of demo_env ?A = Some ?ra \<and> readable demo_env ?B \<and> row_of demo_env ?B = None
           \<and> row_of demo_env ?C = Some ?rc"
    by (simp add: row_of_docs readable_docs)
  from records_in_discovery_order [of demo_env "[?A, ?B, ?C]" "[?ra, ?rc]" ?A ?ra ?B ?C ?rc] h
  have run: "analyze_files demo_env [?A, ?B, ?C] [] = Inr [?ra, ?rc]" by blast
  then have "analyze_folder demo_env dir_docs = Inr (Report [?ra, ?rc] (summarize [?ra, ?rc]))"
    by (simp add: analyze_folder_cases discover_docs)
  with h run show ?thesis by (simp add: discover_docs)
qed

text \<open>
  Claim C9, as stated, fails where files exist and none yields a record because one
  cannot be read: nothing in lines 110 to 115 catches the reader's exception. The
  folder \<open>broken\<close> holds one file with a matching suffix; it yields no row, and the run
  ends with the reader's error instead of the no-content notice.
\<close>

theorem unreadable_file_counterexample:
  "discover demo_env dir_broken = [demo_join dir_broken name_c] \<and>
   row_of demo_env (demo_join dir_broken name_c) = None \<and>
   analyze_folder demo_env dir_broken = Inl OSError \<and>
   analyze_folder demo_env dir_broken \<noteq> Inr NoAnalyzableContent"
proof -
  have "row_of demo_env (demo_join dir_broken name_c) = None"
    by (simp add: row_of_def read_broken)
  moreover have "analyze_folder demo_env dir_broken = Inl OSError"
    by (simp add: analyze_folder_cases discover_broken read_broken)
  ultimately show ?thesis by (simp add: discover_broken)
qed

text \<open>
  Claim C9, amended. \<open>analyze_folder\<close> gives the no-files notice, without raising,
  exactly when no file name has one of the two suffixes. It gives the no-content
  notice exactly when there are such files, every one of them can be read and none
  yields a row. The two notices differ, and whenever no file matches or the loop ends
  with no row the run neither raises nor produces a table or a summary.
\<close>

theorem empty_input_signals:
  "(analyze_folder E p = Inr NoFilesFound \<longleftrightarrow> discover E p = []) \<and>
   (analyze_folder E p = Inr NoAnalyzableContent \<longleftrightarrow>
      discover E p \<noteq> [] \<and> (\<forall>f \<in> set (discover E p). readable E f \<and> row_of E f = None)) \<and>
   (discover E p = [] \<or> analyze_files E (discover E p) [] = Inr [] \<longrightarrow>
      (\<forall>rows s. analyze_folder E p \<noteq> Inr (Report rows s)) \<and>
      (\<forall>e. analyze_folder E p \<noteq> Inl e))"
proof (intro conjI)
  show "analyze_folder E p = Inr NoFilesFound \<longleftrightarrow> discover E p = []"
    by (auto simp: analyze_folder_cases split: sum.splits)
next
  have "analyze_folder E p = Inr NoAnalyzableContent \<longleftrightarrow>
          discover E p \<noteq> [] \<and> analyze_files E (discover E p) [] = Inr []"
    by (auto simp: analyze_folder_cases split: sum.splits)
  also have "\<dots> \<longleftrightarrow> discover E p \<noteq> [] \<and> (\<forall>f \<in> set (discover E p). readable E f) \<and>
                 List.map_filter (row_of E) (discover E p) = []"
    by (auto simp: analyze_files_Inr_iff)
  also have "\<dots> \<longleftrightarrow> discover E p \<noteq> [] \<and>
                 (\<forall>f \<in> set (discover E p). readable E f \<and> row_of E f = None)"
    by (auto simp: map_filter_Nil_iff)
  finally show "analyze_folder E p = Inr NoAnalyzableContent \<longleftrightarrow>
      discover E p \<noteq> [] \<and> (\<forall>f \<in> set (discover E p). readable E f \<and> row_of E f = None)" .
next
  show "discover E p = [] \<or> analyze_files E (discover E p) [] = Inr [] \<longrightarrow>
      (\<forall>rows s. analyze_folder E p \<noteq> Inr (Report rows s)) \<and>
      (\<forall>e. analyze_folder E p \<noteq> Inl e)"
    by (auto simp: analyze_folder_cases)
qed

text \<open>The folder \<open>plain\<close> has no file with a suffix; \<open>drafts\<close> has one file, too short.\<close>

theorem empty_input_signals_witness:
  "discover demo_env dir_plain = [] \<and>
   analyze_folder demo_env dir_plain = Inr NoFilesFound \<and>
   discover demo_env dir_drafts = [demo_join dir_drafts name_b] \<and>
   readable demo_env (demo_join dir_drafts name_b) \<and>
   row_of demo_env (demo_join dir_drafts name_b) = None \<and>
   analyze_files demo_env (discover demo_env dir_drafts) [] = Inr [] \<and>
   analyze_folder demo_env dir_drafts = Inr NoAnalyzableContent \<and>
   NoFilesFound \<noteq> NoAnalyzableContent"
proof -
  have a: "analyze_folder demo_env dir_plain = Inr NoFilesFound"
    using empty_input_signals [of demo_env dir_plain] discover_plain by blast
  have "discover demo_env dir_drafts \<noteq> [] \<and>
        (\<forall>f \<in> set (discover demo_env dir_drafts). readable demo_env f \<and> row_of demo_env f = None)"
    by (simp add: discover_drafts readable_docs row_of_draft)
  then have b: "analyze_folder demo_env dir_drafts = Inr NoAnalyzableContent"
    using empty_input_signals [of demo_env dir_drafts] by blast
  have c: "analyze_files demo_env (discover demo_env dir_drafts) [] = Inr []"
    by (simp add: discover_drafts read_draft analyze_short)
  show ?thesis
    using a b c by (simp add: discover_plain discover_drafts readable_docs row_of_draft)
qed

text \<open>
  Claim C10. For a lexical diversity and a repetition ratio in (0, 1], a burstiness
  and a perplexity proxy of at least 0, the weighted sum is at most 1 and the AI score
  at most 100. The features of every analysed text are in these ranges, and every AI
  score that is a number is at most 100.
\<close>

theorem score_upper_bound:
  "(0 < ttr \<and> ttr \<le> 1 \<and> 0 < r \<and> r \<le> 1 \<and> 0 \<le> b \<and> 0 \<le> pp \<longrightarrow>
      (\<exists>c s. score_of ttr (Fin b) r (Fin pp) = Fin c \<and> c \<le> 1 \<and>
             np_round (np_mul (Fin c) (Fin 100)) 2 = Fin s \<and> s \<le> 100)) \<and>
   (analyze_text_features E text = Inr (Some a) \<longrightarrow>
      (\<exists>t q. ttr_of (word_tokenize E (lower E text)) = Inr t \<and> 0 < t \<and> t \<le> 1 \<and>
             common_ratio_of (word_tokenize E (lower E text)) = Inr q \<and> 0 < q \<and> q \<le> 1) \<and>
      (\<forall>x. burstiness_of (sent_lengths_of E (sent_tokenize E text)) = Fin x \<longrightarrow> 0 \<le> x) \<and>
      (\<forall>v. np_var (sent_lengths_of E (sent_tokenize E text)) = Fin v \<longrightarrow> 0 \<le> v) \<and>
      (\<forall>s. ai_score a = Fin s \<longrightarrow> s \<le> 100))"
proof (intro conjI impI allI)
  assume "0 < ttr \<and> ttr \<le> 1 \<and> 0 < r \<and> r \<le> 1 \<and> 0 \<le> b \<and> 0 \<le> pp"
  then show "\<exists>c s. score_of ttr (Fin b) r (Fin pp) = Fin c \<and> c \<le> 1 \<and>
             np_round (np_mul (Fin c) (Fin 100)) 2 = Fin s \<and> s \<le> 100"
    using score_of_bound by blast
next
  assume a: "analyze_text_features E text = Inr (Some a)"
  let ?ws = "word_tokenize E (lower E text)"
  have ne: "?ws \<noteq> []" using a by (rule analyze_Some_words)
  show "\<exists>t q. ttr_of ?ws = Inr t \<and> 0 < t \<and> t \<le> 1 \<and>
             common_ratio_of ?ws = Inr q \<and> 0 < q \<and> q \<le> 1"
    using ttr_of_range [OF ne] common_ratio_of_range [OF ne] by blast
next
  fix x assume "burstiness_of (sent_lengths_of E (sent_tokenize E text)) = Fin x"
  then show "0 \<le> x" by (rule burstiness_Fin_nonneg)
next
  fix v assume "np_var (sent_lengths_of E (sent_tokenize E text)) = Fin v"
  then show "0 \<le> v" using np_var_Fin by (metis np_var_NaN_iff npfloat.distinct(1) npfloat.inject)
next
  fix s
  assume a: "analyze_text_features E text = Inr (Some a)" and s: "ai_score a = Fin s"
  let ?ws = "word_tokenize E (lower E text)"
  let ?ls = "sent_lengths_of E (sent_tokenize E text)"
  have ne: "?ws \<noteq> []" using a by (rule analyze_Some_words)
  obtain t where t: "ttr_of ?ws = Inr t" "0 < t" "t \<le> 1" using ttr_of_range [OF ne] by blast
  obtain q where q: "common_ratio_of ?ws = Inr q" "0 < q" "q \<le> 1"
    using common_ratio_of_range [OF ne] by blast
  have ai: "ai_score a = np_round (np_mul (score_of t (burstiness_of ?ls) q (np_var ?ls)) (Fin 100)) 2"
    using a t(1) q(1)
    by (auto simp: analyze_text_features_def Let_def split: if_splits)
  obtain x where x: "burstiness_of ?ls = Fin x"
    using ai s by (cases "burstiness_of ?ls") (simp_all add: score_of_def)
  then have x0: "0 \<le> x" by (rule burstiness_Fin_nonneg)
  have "?ls \<noteq> []" using x by (auto simp: burstiness_of_def np_mean_def)
  then obtain v where v: "np_var ?ls = Fin v" using np_var_Fin by blast
  obtain c s' where c: "score_of t (Fin x) q (Fin v) = Fin c" "c \<le> 1"
      "np_round (np_mul (Fin c) (Fin 100)) 2 = Fin s'" "s' \<le> 100"
    using score_of_bound [OF t(2,3) q(2,3) x0] by blast
  have "ai_score a = Fin s'" using ai x v c by simp
  with s c(4) show "s \<le> 100" by simp
qed

text \<open>
  The features 1/6, 0, 1/3, 0, and the repeated-sentence document with its score, the
  float nearest to 81.67.
\<close>

theorem score_upper_bound_witness:
  "(0::real) < 1 / 6 \<and> (1::real) / 6 \<le> 1 \<and> (0::real) < 1 / 3 \<and> (1::real) / 3 \<le> 1 \<and>
   (\<exists>c s. score_of (1 / 6) (Fin 0) (1 / 3) (Fin 0) = Fin c \<and> c \<le> 1 \<and>
          np_round (np_mul (Fin c) (Fin 100)) 2 = Fin s \<and> s \<le> 100) \<and>
   analyze_text_features demo_env text_ai = Inr (Some analysis_ai) \<and>
   ai_score analysis_ai = Fin (fl 81.67) \<and> fl 81.67 \<le> 100"
proof -
  have s: "ai_score analysis_ai = Fin (fl 81.67)" by (simp add: analysis_ai_def)
  show ?thesis
    using score_upper_bound [of "1 / 6" "1 / 3" 0 0 demo_env text_ai analysis_ai] analyze_ai s
    by simp
qed

end
